theory Spec2Isabelle
  imports Complex_Main "HOL-Library.Sublist"
begin

section \<open>Advisory filtering: a model of \<open>scripts/filter_advisories.py\<close>\<close>

text \<open>
  The class \<open>AdvisoryFilter\<close> holds a parsed configuration, the per-category keyword
  sets and the compiled regex patterns; its methods gate, match and score one advisory
  and rank a batch. Each method is a function here, named as in the source without the
  leading underscore (\<open>init\<close> for the constructor), taking the object as its argument
  \<open>self\<close>; a loop of a method is a recursive function of its own, called by it.

  A Python string is a sequence of code points. Strings are \<open>string\<close> here, and a
  \<open>char\<close>, one of 256 values, is read as the code point of that number: the strings of
  the model are the Python strings whose code points are below 256, the Latin-1 range,
  which holds ASCII. On that range \<open>str.lower\<close>, \<open>str.strip\<close>, the regex class \<open>\w\<close> and
  matching under \<open>re.IGNORECASE\<close> work code point by code point and stay in the range,
  and the definitions below give them in full, for every \<open>char\<close>. A string with a code
  point from 256 on is no value of the type. A CVSS score is a Python float; it is only
  ever compared, and finite floats are ordered as the reals they denote, so it is a
  \<open>real\<close> here. A dictionary read with \<open>d.get(key, default)\<close> is a record whose fields
  are options, \<open>None\<close> for an absent key.
\<close>

subsection \<open>Python strings\<close>

text \<open>The code points that \<open>str.lower()\<close> changes: \<open>A\<close> to \<open>Z\<close>, and the accented capitals
  \<open>0xC0\<close> to \<open>0xDE\<close> without the multiplication sign \<open>0xD7\<close>. Each goes to the code point
  32 above it; every other code point below 256 stays, the sharp s and the micro sign
  among them.\<close>

definition is_upper_char :: "char \<Rightarrow> bool" where
  "is_upper_char c = (let n = (of_char c :: nat) in
     (65 \<le> n \<and> n \<le> 90) \<or> (192 \<le> n \<and> n \<le> 214) \<or> (216 \<le> n \<and> n \<le> 222))"

definition lower_char :: "char \<Rightarrow> char" where
  "lower_char c = (if is_upper_char c then char_of ((of_char c :: nat) + 32) else c)"

definition py_lower :: "string \<Rightarrow> string" where
  "py_lower s = map lower_char s"

text \<open>The code points \<open>str.strip()\<close> removes, those for which \<open>str.isspace\<close> holds: tab to
  carriage return, the four separators \<open>0x1C\<close> to \<open>0x1F\<close>, the space, the next-line
  control \<open>0x85\<close> and the no-break space \<open>0xA0\<close>.\<close>

definition is_space_char :: "char \<Rightarrow> bool" where
  "is_space_char c = (let n = (of_char c :: nat) in
     (9 \<le> n \<and> n \<le> 13) \<or> (28 \<le> n \<and> n \<le> 32) \<or> n = 133 \<or> n = 160)"

definition py_strip :: "string \<Rightarrow> string" where
  "py_strip s = rev (dropWhile is_space_char (rev (dropWhile is_space_char s)))"

text \<open>The regex class \<open>\w\<close> of a \<open>str\<close> pattern: the underscore and every code point that is
  alphanumeric for Unicode. Below 256 these are the ASCII letters and digits, the
  ordinal indicators \<open>0xAA\<close> and \<open>0xBA\<close>, the superscript digits \<open>0xB2\<close>, \<open>0xB3\<close> and
  \<open>0xB9\<close>, the micro sign \<open>0xB5\<close>, the fractions \<open>0xBC\<close> to \<open>0xBE\<close>, and the accented
  letters \<open>0xC0\<close> to \<open>0xFF\<close> without the multiplication sign \<open>0xD7\<close> and the division
  sign \<open>0xF7\<close>.\<close>

definition is_word_char :: "char \<Rightarrow> bool" where
  "is_word_char c = (let n = (of_char c :: nat) in
     (97 \<le> n \<and> n \<le> 122) \<or> (65 \<le> n \<and> n \<le> 90) \<or> (48 \<le> n \<and> n \<le> 57) \<or> n = 95
     \<or> n = 170 \<or> n = 178 \<or> n = 179 \<or> n = 181 \<or> n = 185 \<or> n = 186
     \<or> (188 \<le> n \<and> n \<le> 190) \<or> (192 \<le> n \<and> n \<le> 214) \<or> (216 \<le> n \<and> n \<le> 246)
     \<or> (248 \<le> n \<and> n \<le> 255))"

text \<open>\<open>sep.join(parts)\<close>.\<close>

fun py_join :: "string \<Rightarrow> string list \<Rightarrow> string" where
  "py_join sep [] = []"
| "py_join sep [x] = x"
| "py_join sep (x # y # ys) = x @ sep @ py_join sep (y # ys)"

text \<open>\<open>needle in haystack\<close> on strings: the needle is tried at every position, the end
  included.\<close>

fun starts_with :: "string \<Rightarrow> string \<Rightarrow> bool" where
  "starts_with [] t = True"
| "starts_with (k # ks) [] = False"
| "starts_with (k # ks) (c # cs) = (k = c \<and> starts_with ks cs)"

fun py_in :: "string \<Rightarrow> string \<Rightarrow> bool" where
  "py_in k [] = starts_with k []"
| "py_in k (c # cs) = (starts_with k (c # cs) \<or> py_in k cs)"

text \<open>\<open>d.get(key, default)\<close> on an optional field.\<close>

definition get_or :: "'a option \<Rightarrow> 'a \<Rightarrow> 'a" where
  "get_or field dflt = (case field of None \<Rightarrow> dflt | Some v \<Rightarrow> v)"

subsection \<open>The two regular expressions of the keyword matcher\<close>

text \<open>
  \<open>re.match(r'^[\w]+$', keyword)\<close>: one or more word characters up to the end of the
  string, where \<open>$\<close> also matches just ahead of a newline that ends the string.
\<close>

definition is_word_keyword :: "string \<Rightarrow> bool" where
  "is_word_keyword keyword =
     (let body = (if keyword \<noteq> [] \<and> last keyword = CHR 0x0A then butlast keyword else keyword)
      in body \<noteq> [] \<and> list_all is_word_char body)"

text \<open>
  \<open>re.search(r'\b' + re.escape(keyword) + r'\b', text, re.IGNORECASE)\<close>: the keyword
  read literally and without regard to case, at some position of the text, with a
  word boundary on both sides. Two code points below 256 match without regard to case
  exactly when \<open>lower\<close> takes them to the same one. \<open>\b\<close> holds between two positions when exactly one of
  the neighbouring characters is a word character; the ends of the text count as
  non-word. The search walks the text carrying the character that precedes the position.
\<close>

definition opt_word :: "char option \<Rightarrow> bool" where
  "opt_word c = (case c of None \<Rightarrow> False | Some x \<Rightarrow> is_word_char x)"

definition word_boundary :: "char option \<Rightarrow> char option \<Rightarrow> bool" where
  "word_boundary prev next_c = (opt_word prev \<noteq> opt_word next_c)"

definition head_opt :: "string \<Rightarrow> char option" where
  "head_opt t = (case t of [] \<Rightarrow> None | c # _ \<Rightarrow> Some c)"

definition last_opt :: "char option \<Rightarrow> string \<Rightarrow> char option" where
  "last_opt prev t = (if t = [] then prev else Some (last t))"

definition match_bounded_at :: "string \<Rightarrow> char option \<Rightarrow> string \<Rightarrow> bool" where
  "match_bounded_at keyword prev t =
     (let n = length keyword in
      n \<le> length t \<and> py_lower (take n t) = py_lower keyword
      \<and> word_boundary prev (head_opt t)
      \<and> word_boundary (last_opt prev (take n t)) (head_opt (drop n t)))"

fun search_bounded_from :: "string \<Rightarrow> char option \<Rightarrow> string \<Rightarrow> bool" where
  "search_bounded_from keyword prev [] = match_bounded_at keyword prev []"
| "search_bounded_from keyword prev (c # cs) =
     (match_bounded_at keyword prev (c # cs) \<or> search_bounded_from keyword (Some c) cs)"

definition search_bounded :: "string \<Rightarrow> string \<Rightarrow> bool" where
  "search_bounded keyword text = search_bounded_from keyword None text"

subsection \<open>Configuration and advisories\<close>

record category_data =
  cat_name :: "string option"
  cat_keywords :: "string list option"

text \<open>A pattern entry is read as \<open>pattern_config['pattern']\<close> and
  \<open>pattern_config.get('description', '')\<close>: the pattern is a mandatory key, the
  description an optional one.\<close>

record pattern_config =
  pc_pattern :: string
  pc_description :: "string option"

record regex_config =
  rx_enabled :: "bool option"
  rx_patterns :: "pattern_config list option"

record severity_config =
  sev_enabled :: "bool option"
  sev_min_cvss :: "real option"
  sev_levels :: "string list option"

record weights_config =
  w_exact_match :: "int option"
  w_category_match :: "int option"
  w_regex_match :: "int option"
  w_severity_critical :: "int option"
  w_severity_high :: "int option"
  w_severity_medium :: "int option"

record ranking_config =
  rk_enabled :: "bool option"
  rk_weights :: "weights_config option"
  rk_max_results :: "int option"

text \<open>\<open>categories\<close> is a dictionary iterated in insertion order: a list of
  (category id, data) pairs.\<close>

record config =
  cfg_categories :: "(string \<times> category_data) list option"
  cfg_regex_patterns :: "regex_config option"
  cfg_severity :: "severity_config option"
  cfg_ranking :: "ranking_config option"

record advisory =
  adv_id :: "string option"
  adv_description :: "string option"
  adv_summary :: "string option"
  adv_title :: "string option"
  adv_references :: "string list option"
  adv_severity :: "string option"
  adv_cvssScore :: "real option"
  adv_url :: "string option"
  adv_publishedDate :: "string option"

text \<open>The empty dictionary \<open>{}\<close> that stands in for an absent section.\<close>

definition no_regex_config :: regex_config where
  "no_regex_config = \<lparr>rx_enabled = None, rx_patterns = None\<rparr>"

definition no_severity_config :: severity_config where
  "no_severity_config = \<lparr>sev_enabled = None, sev_min_cvss = None, sev_levels = None\<rparr>"

definition no_weights :: weights_config where
  "no_weights = \<lparr>w_exact_match = None, w_category_match = None, w_regex_match = None,
     w_severity_critical = None, w_severity_high = None, w_severity_medium = None\<rparr>"

definition no_ranking_config :: ranking_config where
  "no_ranking_config = \<lparr>rk_enabled = None, rk_weights = None, rk_max_results = None\<rparr>"

subsection \<open>The regex library\<close>

text \<open>
  The configured patterns go through Python's \<open>re\<close> module, which is not part of the
  program. \<open>re_compile\<close> stands for \<open>re.compile(p, re.IGNORECASE)\<close>, which has three
  outcomes: a compiled pattern; the exception \<open>re.error\<close>, for a pattern that is not a
  regular expression; or another exception, as the \<open>OverflowError\<close> for a repetition
  count that is too large. \<open>re_search\<close> stands for \<open>compiled.search(text)\<close> being a
  match. Every function that uses the library takes it as the argument \<open>lib\<close>.
\<close>

datatype py_exception = OverflowError | RecursionError | MemoryError

datatype 'rx compile_outcome = Compiled 'rx | Re_error | Raises py_exception

record 'rx regex_lib =
  re_compile :: "string \<Rightarrow> 'rx compile_outcome"
  re_search :: "'rx \<Rightarrow> string \<Rightarrow> bool"

record 'rx compiled_pattern =
  cp_pattern :: 'rx
  cp_description :: string
  cp_original :: string

subsection \<open>The filter object\<close>

text \<open>\<open>self.keywords\<close> maps a category id to a set of strings. The set is a list without
  repetitions; the order in which Python iterates a set is not fixed, and nothing
  proved below depends on it.\<close>

record 'rx advisory_filter =
  self_config :: config
  self_keywords :: "string \<Rightarrow> string list option"
  self_regex_patterns :: "'rx compiled_pattern list"

definition set_add :: "'a \<Rightarrow> 'a list \<Rightarrow> 'a list" where
  "set_add x xs = (if x \<in> set xs then xs else xs @ [x])"

fun normalize_keywords :: "string list \<Rightarrow> string list \<Rightarrow> string list" where
  "normalize_keywords category_keywords [] = category_keywords"
| "normalize_keywords category_keywords (keyword # rest) =
     normalize_keywords (set_add (py_lower (py_strip keyword)) category_keywords) rest"

fun extract_loop :: "(string \<Rightarrow> string list option) \<Rightarrow> (string \<times> category_data) list
    \<Rightarrow> (string \<Rightarrow> string list option)" where
  "extract_loop kws [] = kws"
| "extract_loop kws ((category_id, category_data) # rest) =
     extract_loop (kws(category_id \<mapsto> normalize_keywords [] (get_or (cat_keywords category_data) []))) rest"

definition extract_keywords :: "config \<Rightarrow> (string \<Rightarrow> string list option)" where
  "extract_keywords cfg = extract_loop Map.empty (get_or (cfg_categories cfg) [])"

text \<open>The loop of \<open>_compile_regex_patterns\<close>. Its \<open>try\<close> has the one handler
  \<open>except re.error\<close>, which goes on with the next pattern; any other exception leaves
  the loop, the method and the constructor, and is the result \<open>Inl\<close>.\<close>

fun compile_loop :: "'rx regex_lib \<Rightarrow> 'rx compiled_pattern list \<Rightarrow> pattern_config list
    \<Rightarrow> py_exception + 'rx compiled_pattern list" where
  "compile_loop lib patterns [] = Inr patterns"
| "compile_loop lib patterns (pattern_config # rest) =
     (case re_compile lib (pc_pattern pattern_config) of
        Compiled compiled \<Rightarrow>
          compile_loop lib
            (patterns @ [\<lparr>cp_pattern = compiled,
                          cp_description = get_or (pc_description pattern_config) [],
                          cp_original = pc_pattern pattern_config\<rparr>]) rest
      | Re_error \<Rightarrow> compile_loop lib patterns rest
      | Raises e \<Rightarrow> Inl e)"

definition regex_section :: "config \<Rightarrow> regex_config" where
  "regex_section cfg = get_or (cfg_regex_patterns cfg) no_regex_config"

definition compile_regex_patterns :: "'rx regex_lib \<Rightarrow> config
    \<Rightarrow> py_exception + 'rx compiled_pattern list" where
  "compile_regex_patterns lib cfg =
     (let regex_config = regex_section cfg in
      if \<not> get_or (rx_enabled regex_config) True then Inr []
      else compile_loop lib [] (get_or (rx_patterns regex_config) []))"

text \<open>The sections of the configuration as the methods read them:
  \<open>self.config.get('severity', {})\<close>, \<open>self.config.get('ranking', {})\<close> and
  \<open>self.config.get('categories', {}).items()\<close>.\<close>

definition severity_section :: "'rx advisory_filter \<Rightarrow> severity_config" where
  "severity_section self = get_or (cfg_severity (self_config self)) no_severity_config"

definition ranking_section :: "'rx advisory_filter \<Rightarrow> ranking_config" where
  "ranking_section self = get_or (cfg_ranking (self_config self)) no_ranking_config"

definition category_items :: "'rx advisory_filter \<Rightarrow> (string \<times> category_data) list" where
  "category_items self = get_or (cfg_categories (self_config self)) []"

text \<open>What one round of the compile loop adds to the list when it does not leave the
  loop: the compiled entry of a pattern that compiles, nothing otherwise.\<close>

definition compile_entry :: "'rx regex_lib \<Rightarrow> pattern_config \<Rightarrow> 'rx compiled_pattern list" where
  "compile_entry lib pattern_config =
     (case re_compile lib (pc_pattern pattern_config) of
        Compiled compiled \<Rightarrow> [\<lparr>cp_pattern = compiled,
                               cp_description = get_or (pc_description pattern_config) [],
                               cp_original = pc_pattern pattern_config\<rparr>]
      | Re_error \<Rightarrow> []
      | Raises e \<Rightarrow> [])"

text \<open>The constructor: the configuration is given parsed, the keywords are extracted,
  the patterns compiled. An exception that leaves the compile loop leaves the
  constructor, and no filter is built.\<close>

definition init :: "'rx regex_lib \<Rightarrow> config \<Rightarrow> py_exception + 'rx advisory_filter" where
  "init lib cfg =
     (let kws = extract_keywords cfg in
      case compile_regex_patterns lib cfg of
        Inl e \<Rightarrow> Inl e
      | Inr patterns \<Rightarrow>
          Inr \<lparr>self_config = cfg, self_keywords = kws, self_regex_patterns = patterns\<rparr>)"

subsection \<open>Severity gate\<close>

definition check_severity :: "'rx advisory_filter \<Rightarrow> advisory \<Rightarrow> bool" where
  "check_severity self advisory =
     (let severity_config = severity_section self in
      if \<not> get_or (sev_enabled severity_config) True then True
      else
        let min_cvss = get_or (sev_min_cvss severity_config) 0;
            allowed_levels = get_or (sev_levels severity_config)
                               [''critical'', ''high'', ''medium'', ''low''];
            cvss_score = get_or (adv_cvssScore advisory) 0
        in if cvss_score < min_cvss then False
           else
             let severity = py_lower (get_or (adv_severity advisory) [])
             in if severity \<noteq> [] \<and> severity \<notin> set (map py_lower allowed_levels) then False
                else True)"

subsection \<open>Relevance matcher\<close>

text \<open>The test made on one keyword in the loop of \<open>_match_keywords\<close>: word-boundary
  search for a keyword of word characters only, substring containment otherwise.\<close>

definition keyword_matches :: "string \<Rightarrow> string \<Rightarrow> bool" where
  "keyword_matches keyword text_lower =
     (if is_word_keyword keyword then search_bounded keyword text_lower
      else py_in keyword text_lower)"

definition match_keywords :: "'rx advisory_filter \<Rightarrow> string \<Rightarrow> string \<Rightarrow> string list" where
  "match_keywords self text category_id =
     (let category_keywords = get_or (self_keywords self category_id) [];
          text_lower = py_lower text
      in filter (\<lambda>keyword. keyword_matches keyword text_lower) category_keywords)"

record matched_pattern =
  mp_description :: string
  mp_pattern :: string

definition match_regex_patterns :: "'rx regex_lib \<Rightarrow> 'rx advisory_filter \<Rightarrow> string
    \<Rightarrow> matched_pattern list" where
  "match_regex_patterns lib self text =
     map (\<lambda>pattern_info. \<lparr>mp_description = cp_description pattern_info,
                           mp_pattern = cp_original pattern_info\<rparr>)
       (filter (\<lambda>pattern_info. re_search lib (cp_pattern pattern_info) text)
          (self_regex_patterns self))"

text \<open>\<open>matched_keywords\<close> is a dictionary keyed by the category's display name:
  assigning to a key that is present replaces its value in place, a new key goes to
  the end.\<close>

fun dict_set :: "'k \<Rightarrow> 'v \<Rightarrow> ('k \<times> 'v) list \<Rightarrow> ('k \<times> 'v) list" where
  "dict_set k v [] = [(k, v)]"
| "dict_set k v ((k', v') # rest) =
     (if k' = k then (k, v) # rest else (k', v') # dict_set k v rest)"

record matches =
  matched_keywords :: "(string \<times> string list) list"
  matched_categories :: "string list"
  matched_patterns :: "matched_pattern list"

record scored_result =
  sr_advisory :: advisory
  sr_matches :: matches
  relevance_score :: int

subsection \<open>Scorer\<close>

definition calculate_relevance_score :: "'rx advisory_filter \<Rightarrow> matches \<Rightarrow> advisory \<Rightarrow> int" where
  "calculate_relevance_score self m advisory =
     (let ranking_config = ranking_section self in
      if \<not> get_or (rk_enabled ranking_config) True then 1
      else
        let weights = get_or (rk_weights ranking_config) no_weights;
            total_keyword_matches = sum_list (map (\<lambda>(name, kws). int (length kws)) (matched_keywords m));
            score = total_keyword_matches * get_or (w_exact_match weights) 10;
            score = score + int (length (matched_categories m)) * get_or (w_category_match weights) 5;
            score = score + int (length (matched_patterns m)) * get_or (w_regex_match weights) 7;
            severity = py_lower (get_or (adv_severity advisory) [])
        in if severity = ''critical'' then score + get_or (w_severity_critical weights) 15
           else if severity = ''high'' then score + get_or (w_severity_high weights) 10
           else if severity = ''medium'' then score + get_or (w_severity_medium weights) 5
           else score)"

text \<open>
  The score as the specification words it, to be compared with the scorer above: the
  matched keywords of all categories, the matched categories and the matched patterns,
  each count times its weight, plus one bonus chosen by the lower-cased severity.
\<close>

definition spec_severity_bonus :: "weights_config \<Rightarrow> string \<Rightarrow> int" where
  "spec_severity_bonus weights severity =
     (if severity = ''critical'' then get_or (w_severity_critical weights) 15
      else if severity = ''high'' then get_or (w_severity_high weights) 10
      else if severity = ''medium'' then get_or (w_severity_medium weights) 5
      else 0)"

definition spec_relevance_score :: "weights_config \<Rightarrow> matches \<Rightarrow> string \<Rightarrow> int" where
  "spec_relevance_score weights m severity =
     int (length (concat (map snd (matched_keywords m)))) * get_or (w_exact_match weights) 10
     + int (length (matched_categories m)) * get_or (w_category_match weights) 5
     + int (length (matched_patterns m)) * get_or (w_regex_match weights) 7
     + spec_severity_bonus weights severity"

subsection \<open>Filter pipeline\<close>

definition searchable_text :: "advisory \<Rightarrow> string" where
  "searchable_text advisory =
     py_join '' '' [get_or (adv_id advisory) [],
                    get_or (adv_description advisory) [],
                    get_or (adv_summary advisory) [],
                    get_or (adv_title advisory) [],
                    py_join '' '' (get_or (adv_references advisory) [])]"

text \<open>The display name of a category, \<open>category_data.get('name', category_id)\<close>, and
  the test \<open>if keywords:\<close> made on it in the loop, as functions of the dictionary
  item.\<close>

definition category_name :: "string \<times> category_data \<Rightarrow> string" where
  "category_name item = get_or (cat_name (snd item)) (fst item)"

definition category_matched :: "'rx advisory_filter \<Rightarrow> string \<Rightarrow> string \<times> category_data \<Rightarrow> bool" where
  "category_matched self text item = (match_keywords self text (fst item) \<noteq> [])"

text \<open>The loop over the categories, on the pair of \<open>matched_keywords\<close> and
  \<open>matched_categories\<close>.\<close>

fun match_categories :: "'rx advisory_filter \<Rightarrow> string
    \<Rightarrow> (string \<times> string list) list \<times> string list
    \<Rightarrow> (string \<times> category_data) list
    \<Rightarrow> (string \<times> string list) list \<times> string list" where
  "match_categories self text acc [] = acc"
| "match_categories self text (mk, mc) ((category_id, category_data) # rest) =
     (let category_name = get_or (cat_name category_data) category_id;
          kws = match_keywords self text category_id
      in if kws \<noteq> []
         then match_categories self text (dict_set category_name kws mk, mc @ [category_name]) rest
         else match_categories self text (mk, mc) rest)"

definition filter_advisory :: "'rx regex_lib \<Rightarrow> 'rx advisory_filter \<Rightarrow> advisory
    \<Rightarrow> scored_result option" where
  "filter_advisory lib self advisory =
     (if \<not> check_severity self advisory then None
      else
        let text = searchable_text advisory;
            (mk, mc) = match_categories self text ([], []) (category_items self);
            mp = match_regex_patterns lib self text
        in if mk = [] \<and> mp = [] then None
           else
             let m = \<lparr>matched_keywords = mk, matched_categories = mc, matched_patterns = mp\<rparr>
             in Some \<lparr>sr_advisory = advisory, sr_matches = m,
                      relevance_score = calculate_relevance_score self m advisory\<rparr>)"

text \<open>
  \<open>filtered.sort(key=..., reverse=True)\<close> is the library's stable sort, and stays
  stable under \<open>reverse=True\<close>: a stable sort on the negated key. \<open>xs[:n]\<close> keeps the
  first \<open>n\<close> elements, and for a negative \<open>n\<close> all but the last \<open>-n\<close>.
\<close>

definition sort_descending :: "('a \<Rightarrow> int) \<Rightarrow> 'a list \<Rightarrow> 'a list" where
  "sort_descending key xs = sort_key (\<lambda>x. - key x) xs"

definition slice_to :: "'a list \<Rightarrow> int \<Rightarrow> 'a list" where
  "slice_to xs n = (if 0 \<le> n then take (nat n) xs else take (length xs - nat (- n)) xs)"

fun collect :: "'rx regex_lib \<Rightarrow> 'rx advisory_filter \<Rightarrow> scored_result list \<Rightarrow> advisory list
    \<Rightarrow> scored_result list" where
  "collect lib self filtered [] = filtered"
| "collect lib self filtered (advisory # rest) =
     (case filter_advisory lib self advisory of
        Some result \<Rightarrow> collect lib self (filtered @ [result]) rest
      | None \<Rightarrow> collect lib self filtered rest)"

definition filter_advisories :: "'rx regex_lib \<Rightarrow> 'rx advisory_filter \<Rightarrow> advisory list
    \<Rightarrow> scored_result list" where
  "filter_advisories lib self advisories =
     (let filtered = collect lib self [] advisories;
          filtered = sort_descending relevance_score filtered;
          max_results = get_or (rk_max_results (ranking_section self)) 20
      in slice_to filtered max_results)"

subsection \<open>Advisories as objects\<close>

text \<open>
  An advisory is a dictionary, and a Python dictionary is an object: a method is handed
  a reference to it and could assign to its keys, and the result of \<open>filter_advisory\<close>
  holds that reference, not a copy. What the pipeline does to the advisories it is given
  is a statement about the objects. For it the methods that take an advisory are given
  a second time, over a store of advisory objects: an advisory argument is a reference,
  each \<open>advisory.get(key, default)\<close> is a read of the store, and every method returns
  the store it leaves behind along with its value. The keyword and pattern matchers
  take the searchable text, a string, and are the functions above.
\<close>

type_synonym ref = nat

type_synonym store = "ref \<Rightarrow> advisory"

text \<open>\<open>d.get(key, default)\<close> on the object that \<open>d\<close> refers to.\<close>

definition dict_get :: "ref \<Rightarrow> (advisory \<Rightarrow> 'a option) \<Rightarrow> 'a \<Rightarrow> store \<Rightarrow> 'a \<times> store" where
  "dict_get d field dflt h = (get_or (field (h d)) dflt, h)"

definition check_severity_obj :: "'rx advisory_filter \<Rightarrow> ref \<Rightarrow> store \<Rightarrow> bool \<times> store" where
  "check_severity_obj self advisory h =
     (let severity_config = severity_section self in
      if \<not> get_or (sev_enabled severity_config) True then (True, h)
      else
        let min_cvss = get_or (sev_min_cvss severity_config) 0;
            allowed_levels = get_or (sev_levels severity_config)
                               [''critical'', ''high'', ''medium'', ''low''];
            (cvss_score, h1) = dict_get advisory adv_cvssScore 0 h
        in if cvss_score < min_cvss then (False, h1)
           else
             let (severity, h2) = dict_get advisory adv_severity [] h1;
                 severity = py_lower severity
             in if severity \<noteq> [] \<and> severity \<notin> set (map py_lower allowed_levels)
                then (False, h2)
                else (True, h2))"

definition searchable_text_obj :: "ref \<Rightarrow> store \<Rightarrow> string \<times> store" where
  "searchable_text_obj advisory h =
     (let (ident, h1) = dict_get advisory adv_id [] h;
          (description, h2) = dict_get advisory adv_description [] h1;
          (summary, h3) = dict_get advisory adv_summary [] h2;
          (title, h4) = dict_get advisory adv_title [] h3;
          (references, h5) = dict_get advisory adv_references [] h4
      in (py_join '' '' [ident, description, summary, title, py_join '' '' references], h5))"

definition calculate_relevance_score_obj :: "'rx advisory_filter \<Rightarrow> matches \<Rightarrow> ref \<Rightarrow> store
    \<Rightarrow> int \<times> store" where
  "calculate_relevance_score_obj self m advisory h =
     (let ranking_config = ranking_section self in
      if \<not> get_or (rk_enabled ranking_config) True then (1, h)
      else
        let weights = get_or (rk_weights ranking_config) no_weights;
            total_keyword_matches = sum_list (map (\<lambda>(name, kws). int (length kws)) (matched_keywords m));
            score = total_keyword_matches * get_or (w_exact_match weights) 10;
            score = score + int (length (matched_categories m)) * get_or (w_category_match weights) 5;
            score = score + int (length (matched_patterns m)) * get_or (w_regex_match weights) 7;
            (severity, h1) = dict_get advisory adv_severity [] h;
            severity = py_lower severity
        in if severity = ''critical'' then (score + get_or (w_severity_critical weights) 15, h1)
           else if severity = ''high'' then (score + get_or (w_severity_high weights) 10, h1)
           else if severity = ''medium'' then (score + get_or (w_severity_medium weights) 5, h1)
           else (score, h1))"

record object_result =
  or_advisory :: ref
  or_matches :: matches
  or_relevance_score :: int

definition filter_advisory_obj :: "'rx regex_lib \<Rightarrow> 'rx advisory_filter \<Rightarrow> ref \<Rightarrow> store
    \<Rightarrow> object_result option \<times> store" where
  "filter_advisory_obj lib self advisory h =
     (let (admitted, h1) = check_severity_obj self advisory h in
      if \<not> admitted then (None, h1)
      else
        let (text, h2) = searchable_text_obj advisory h1;
            (mk, mc) = match_categories self text ([], []) (category_items self);
            mp = match_regex_patterns lib self text
        in if mk = [] \<and> mp = [] then (None, h2)
           else
             let m = \<lparr>matched_keywords = mk, matched_categories = mc, matched_patterns = mp\<rparr>;
                 (score, h3) = calculate_relevance_score_obj self m advisory h2
             in (Some \<lparr>or_advisory = advisory, or_matches = m, or_relevance_score = score\<rparr>, h3))"

fun collect_obj :: "'rx regex_lib \<Rightarrow> 'rx advisory_filter \<Rightarrow> object_result list \<Rightarrow> ref list
    \<Rightarrow> store \<Rightarrow> object_result list \<times> store" where
  "collect_obj lib self filtered [] h = (filtered, h)"
| "collect_obj lib self filtered (advisory # rest) h =
     (case filter_advisory_obj lib self advisory h of
        (Some result, h1) \<Rightarrow> collect_obj lib self (filtered @ [result]) rest h1
      | (None, h1) \<Rightarrow> collect_obj lib self filtered rest h1)"

definition filter_advisories_obj :: "'rx regex_lib \<Rightarrow> 'rx advisory_filter \<Rightarrow> ref list \<Rightarrow> store
    \<Rightarrow> object_result list \<times> store" where
  "filter_advisories_obj lib self advisories h =
     (let (filtered, h1) = collect_obj lib self [] advisories h;
          filtered = sort_descending or_relevance_score filtered;
          max_results = get_or (rk_max_results (ranking_section self)) 20
      in (slice_to filtered max_results, h1))"

text \<open>The result of the value-level pipeline that a result over the store stands for: the
  reference replaced by the object it refers to.\<close>

definition as_scored :: "store \<Rightarrow> object_result \<Rightarrow> scored_result" where
  "as_scored h r = \<lparr>sr_advisory = h (or_advisory r), sr_matches = or_matches r,
                    relevance_score = or_relevance_score r\<rparr>"

subsection \<open>Example inputs\<close>

text \<open>A small stand-in for the regex library, used where a statement is evaluated on
  an example. It has the outcomes of \<open>re.compile\<close> on two patterns: \<open>re.error\<close> for the
  lone parenthesis \<open>(\<close>, and \<open>OverflowError\<close> for \<open>a{4294967296}\<close>, whose repetition
  count is too large. Any other pattern is taken as a literal, searched without regard
  to case.\<close>

definition literal_lib :: "string regex_lib" where
  "literal_lib = \<lparr>re_compile = (\<lambda>p. if p = ''('' then Re_error
                                      else if p = ''a{4294967296}'' then Raises OverflowError
                                      else Compiled p),
                   re_search = (\<lambda>rx text. py_in (py_lower rx) (py_lower text))\<rparr>"

text \<open>The filter that the constructor builds from a configuration without patterns.\<close>

definition keyword_filter :: "config \<Rightarrow> string advisory_filter" where
  "keyword_filter cfg = \<lparr>self_config = cfg, self_keywords = extract_keywords cfg,
     self_regex_patterns = []\<rparr>"

text \<open>The scenario of the specification: one category \<open>injection\<close> with the keywords
  \<open>sql injection\<close> and \<open>xss\<close>, a CVSS floor of 7.0, default weights.\<close>

definition scenario_config :: config where
  "scenario_config = \<lparr>
     cfg_categories = Some [(''injection'',
        \<lparr>cat_name = None, cat_keywords = Some [''sql injection'', ''xss'']\<rparr>)],
     cfg_regex_patterns = None,
     cfg_severity = Some \<lparr>sev_enabled = None, sev_min_cvss = Some 7.0, sev_levels = None\<rparr>,
     cfg_ranking = None\<rparr>"

definition scenario_filter :: "string advisory_filter" where
  "scenario_filter = keyword_filter scenario_config"

definition text_advisory :: "string \<Rightarrow> string \<Rightarrow> string option \<Rightarrow> real \<Rightarrow> advisory" where
  "text_advisory ident description severity cvss =
     \<lparr>adv_id = Some ident, adv_description = Some description, adv_summary = None,
      adv_title = None, adv_references = None, adv_severity = severity,
      adv_cvssScore = Some cvss, adv_url = None, adv_publishedDate = None\<rparr>"

definition cve_0001 :: advisory where
  "cve_0001 = text_advisory ''CVE-2024-0001'' ''SQL Injection vulnerability in widget''
                (Some ''critical'') 9.8"

definition cve_0002 :: advisory where
  "cve_0002 = text_advisory ''CVE-2024-0002'' ''XSS issue'' (Some ''low'') 3.0"

definition cve_0003 :: advisory where
  "cve_0003 = text_advisory ''CVE-2024-0003'' ''Stored XSS in the editor'' None 8.1"

definition sql_injection_matches :: matches where
  "sql_injection_matches = \<lparr>matched_keywords = [(''injection'', [''sql injection''])],
     matched_categories = [''injection''], matched_patterns = []\<rparr>"

definition cve_0004 :: advisory where
  "cve_0004 = text_advisory ''CVE-2024-0004'' ''Reflected XSS in the login form'' None 7.5"

text \<open>A category of library names, one made of word characters only and one with a
  hyphen, and two advisories that carry them inside longer tokens.\<close>

definition logging_config :: config where
  "logging_config = \<lparr>
     cfg_categories = Some [(''logging'',
        \<lparr>cat_name = Some ''Logging libraries'',
         cat_keywords = Some [''log4j'', ''apache-struts'']\<rparr>)],
     cfg_regex_patterns = None, cfg_severity = None, cfg_ranking = None\<rparr>"

definition logging_filter :: "string advisory_filter" where
  "logging_filter = keyword_filter logging_config"



text \<open>A category whose only keyword is blank, and an advisory on another subject.\<close>

definition blank_config :: config where
  "blank_config = \<lparr>
     cfg_categories = Some [(''misc'', \<lparr>cat_name = None, cat_keywords = Some [''   '']\<rparr>)],
     cfg_regex_patterns = None, cfg_severity = None, cfg_ranking = None\<rparr>"

definition blank_filter :: "string advisory_filter" where
  "blank_filter = keyword_filter blank_config"

definition parser_advisory :: advisory where
  "parser_advisory = text_advisory ''CVE-2024-0100'' ''Buffer overflow in parser'' (Some ''high'') 8.0"

text \<open>The scenario with a result cap: none, zero, and minus one.\<close>

definition capped_config :: "int \<Rightarrow> config" where
  "capped_config n = scenario_config\<lparr>cfg_ranking :=
     Some \<lparr>rk_enabled = None, rk_weights = None, rk_max_results = Some n\<rparr>\<rparr>"

definition capped_filter :: "int \<Rightarrow> string advisory_filter" where
  "capped_filter n = keyword_filter (capped_config n)"

text \<open>Two categories that share one display name.\<close>

definition twin_config :: config where
  "twin_config = \<lparr>
     cfg_categories = Some
       [(''web'', \<lparr>cat_name = Some ''Web'', cat_keywords = Some [''xss'']\<rparr>),
        (''web2'', \<lparr>cat_name = Some ''Web'', cat_keywords = Some [''sql injection'']\<rparr>)],
     cfg_regex_patterns = None, cfg_severity = None, cfg_ranking = None\<rparr>"

definition twin_filter :: "string advisory_filter" where
  "twin_filter = keyword_filter twin_config"

definition portal_advisory :: advisory where
  "portal_advisory = text_advisory ''CVE-2024-0200'' ''SQL injection and XSS in the portal''
                       (Some ''high'') 8.8"

text \<open>Patterns only: one that does not compile, followed by one that does.\<close>

definition pattern_config :: config where
  "pattern_config = \<lparr>
     cfg_categories = None,
     cfg_regex_patterns = Some \<lparr>rx_enabled = None, rx_patterns = Some
       [\<lparr>pc_pattern = ''('', pc_description = Some ''Broken''\<rparr>,
        \<lparr>pc_pattern = ''overflow'', pc_description = Some ''Memory corruption''\<rparr>]\<rparr>,
     cfg_severity = None, cfg_ranking = None\<rparr>"

definition pattern_filter :: "string advisory_filter" where
  "pattern_filter = \<lparr>self_config = pattern_config,
     self_keywords = extract_keywords pattern_config,
     self_regex_patterns = [\<lparr>cp_pattern = ''overflow'', cp_description = ''Memory corruption'',
                             cp_original = ''overflow''\<rparr>]\<rparr>"

text \<open>Patterns only: one whose repetition count is too large, followed by one that
  compiles.\<close>

definition oversized_config :: config where
  "oversized_config = \<lparr>
     cfg_categories = None,
     cfg_regex_patterns = Some \<lparr>rx_enabled = None, rx_patterns = Some
       [\<lparr>pc_pattern = ''a{4294967296}'', pc_description = Some ''Oversized''\<rparr>,
        \<lparr>pc_pattern = ''overflow'', pc_description = Some ''Memory corruption''\<rparr>]\<rparr>,
     cfg_severity = None, cfg_ranking = None\<rparr>"

text \<open>Three categories with three display names, and an advisory that matches two
  keywords of the first and one of the second.\<close>

definition stack_config :: config where
  "stack_config = \<lparr>
     cfg_categories = Some
       [(''web'', \<lparr>cat_name = Some ''Web'', cat_keywords = Some [''xss'', ''csrf'']\<rparr>),
        (''db'', \<lparr>cat_name = Some ''Database'', cat_keywords = Some [''sql injection'']\<rparr>),
        (''os'', \<lparr>cat_name = None, cat_keywords = Some [''kernel'']\<rparr>)],
     cfg_regex_patterns = None, cfg_severity = None, cfg_ranking = None\<rparr>"

definition stack_filter :: "string advisory_filter" where
  "stack_filter = keyword_filter stack_config"

definition audit_advisory :: advisory where
  "audit_advisory = text_advisory ''CVE-2024-0201'' ''SQL injection, XSS and CSRF in the portal''
                      (Some ''high'') 8.8"

definition stack_matches :: matches where
  "stack_matches = \<lparr>matched_keywords = [(''Web'', [''xss'', ''csrf'']),
                                          (''Database'', [''sql injection''])],
     matched_categories = [''Web'', ''Database''], matched_patterns = []\<rparr>"

text \<open>A store with the two advisories of the scenario and the one about a parser.\<close>

definition example_store :: store where
  "example_store = (\<lambda>d. if d = 0 then cve_0002 else if d = 1 then cve_0001 else parser_advisory)"

section \<open>Properties\<close>

subsection \<open>Strings\<close>

lemma py_lower_Nil_iff: "(py_lower s = []) = (s = [])"
  by (simp add: py_lower_def)












lemma py_lower_append: "py_lower (xs @ ys) = py_lower xs @ py_lower ys"
  by (simp add: py_lower_def)















text \<open>Beyond ASCII: between two accented letters \<open>xss\<close> is no word of its own, between
  the multiplication and the division sign it is; a keyword that ends in an accented
  letter is a keyword of word characters; \<open>lower\<close> folds the accented capital and leaves
  the sharp s and the multiplication sign; \<open>strip\<close> removes the no-break space and the
  next-line control.\<close>

lemma latin1_examples:
  "\<not> keyword_matches ''xss'' [CHR 0xE9, CHR ''x'', CHR ''s'', CHR ''s'', CHR 0xE9]
   \<and> keyword_matches ''xss'' [CHR 0xD7, CHR ''x'', CHR ''s'', CHR ''s'', CHR 0xF7]
   \<and> is_word_keyword [CHR ''c'', CHR ''a'', CHR ''f'', CHR 0xE9]
   \<and> py_lower [CHR 0xC9, CHR 0xDF, CHR 0xD7] = [CHR 0xE9, CHR 0xDF, CHR 0xD7]
   \<and> py_strip [CHR 0xA0, CHR ''a'', CHR 0x85] = ''a''"
  by code_simp

subsection \<open>Severity gate\<close>

text \<open>
  Claim C1. With severity filtering enabled, the gate rejects an advisory exactly when
  its CVSS score is below the configured floor, or its severity string is non-empty and
  its lower-cased value is not among the lower-cased allowed levels. An advisory whose
  severity is empty or missing is therefore rejected by the score check alone.
\<close>

theorem check_severity_rejects_iff:
  assumes "get_or (sev_enabled (severity_section self)) True"
  shows "(\<not> check_severity self a) =
           (get_or (adv_cvssScore a) 0 < get_or (sev_min_cvss (severity_section self)) 0
            \<or> (get_or (adv_severity a) [] \<noteq> []
               \<and> py_lower (get_or (adv_severity a) [])
                 \<notin> set (map py_lower
                     (get_or (sev_levels (severity_section self))
                        [''critical'', ''high'', ''medium'', ''low'']))))
         \<and> (get_or (adv_severity a) [] = [] \<longrightarrow>
              check_severity self a =
                (\<not> get_or (adv_cvssScore a) 0 < get_or (sev_min_cvss (severity_section self)) 0))"
  using assms by (simp add: check_severity_def Let_def py_lower_Nil_iff)

theorem check_severity_rejects_iff_witness:
  "get_or (sev_enabled (severity_section scenario_filter)) True
   \<and> \<not> check_severity scenario_filter cve_0002
   \<and> get_or (adv_severity cve_0003) [] = []
   \<and> check_severity scenario_filter cve_0003"
proof -
  have en: "get_or (sev_enabled (severity_section scenario_filter)) True"
    by code_simp
  have low: "get_or (adv_cvssScore cve_0002) 0
               < get_or (sev_min_cvss (severity_section scenario_filter)) 0"
    by code_simp
  have none: "get_or (adv_severity cve_0003) [] = []"
    by code_simp
  have high: "\<not> get_or (adv_cvssScore cve_0003) 0
                 < get_or (sev_min_cvss (severity_section scenario_filter)) 0"
    by code_simp
  from check_severity_rejects_iff [OF en, of cve_0002] low
  have rejected: "\<not> check_severity scenario_filter cve_0002" by blast
  from check_severity_rejects_iff [OF en, of cve_0003] none high
  have admitted: "check_severity scenario_filter cve_0003" by blast
  from en rejected none admitted show ?thesis by blast
qed

subsection \<open>Keyword index and keyword matching\<close>

lemma set_set_add: "set (set_add x xs) = insert x (set xs)"
  by (auto simp: set_add_def)

lemma set_normalize_keywords:
  "set (normalize_keywords acc ks) = set acc \<union> (\<lambda>k. py_lower (py_strip k)) ` set ks"
  by (induction ks arbitrary: acc) (auto simp: set_set_add)

lemma extract_loop_other:
  "cid \<notin> fst ` set cats \<Longrightarrow> extract_loop kws cats cid = kws cid"
  by (induction cats arbitrary: kws) auto

lemma extract_loop_lookup:
  assumes "distinct (map fst cats)" and "(cid, cd) \<in> set cats"
  shows "extract_loop kws cats cid = Some (normalize_keywords [] (get_or (cat_keywords cd) []))"
  using assms
proof (induction cats arbitrary: kws)
  case Nil
  then show ?case by simp
next
  case (Cons c cats)
  obtain cid' cd' where c: "c = (cid', cd')" by (cases c)
  show ?case
  proof (cases "(cid, cd) = c")
    case True
    with c Cons.prems have "cid \<notin> fst ` set cats" by auto
    with True c show ?thesis by (simp add: extract_loop_other)
  next
    case False
    with Cons.prems have "(cid, cd) \<in> set cats" and "distinct (map fst cats)" by auto
    with c show ?thesis by (simp add: Cons.IH)
  qed
qed

lemma init_fields:
  assumes "init lib cfg = Inr self"
  shows "self_config self = cfg" and "self_keywords self = extract_keywords cfg"
    and "compile_regex_patterns lib cfg = Inr (self_regex_patterns self)"
  using assms by (auto simp: init_def Let_def split: sum.splits)

lemma init_keywords:
  assumes "init lib cfg = Inr self"
    and "distinct (map fst (get_or (cfg_categories cfg) []))"
    and "(cid, cd) \<in> set (get_or (cfg_categories cfg) [])"
  shows "get_or (self_keywords self cid) []
           = normalize_keywords [] (get_or (cat_keywords cd) [])"
  using extract_loop_lookup [OF assms(2,3)] init_fields(2) [OF assms(1)]
  by (simp add: extract_keywords_def get_or_def)

lemma init_keyword_filter:
  assumes "get_or (rx_patterns (regex_section cfg)) [] = []"
  shows "init lib cfg = Inr (keyword_filter cfg)"
  using assms by (simp add: init_def compile_regex_patterns_def keyword_filter_def Let_def)

text \<open>The example filters are the ones the constructor builds from their
  configurations.\<close>

lemma example_filters_built:
  "init literal_lib scenario_config = Inr scenario_filter"
  "init literal_lib logging_config = Inr logging_filter"
  "init literal_lib twin_config = Inr twin_filter"
  "init literal_lib stack_config = Inr stack_filter"
  "init literal_lib (capped_config n) = Inr (capped_filter n)"
  unfolding scenario_filter_def logging_filter_def twin_filter_def stack_filter_def
    capped_filter_def
  by (rule init_keyword_filter,
      simp add: regex_section_def scenario_config_def logging_config_def twin_config_def
        stack_config_def capped_config_def get_or_def no_regex_config_def)+

lemma py_in_empty: "py_in [] t"
  by (cases t) simp_all

lemma keyword_matches_empty: "keyword_matches [] t"
  by (simp add: keyword_matches_def is_word_keyword_def py_in_empty)

lemma match_keywords_member:
  "(k \<in> set (match_keywords self text cid)) =
     (k \<in> set (get_or (self_keywords self cid) []) \<and> keyword_matches k (py_lower text))"
  by (simp add: match_keywords_def Let_def)







text \<open>
  The empty keyword. The test \<open>^[\w]+$\<close> asks for at least one word character, so the
  empty string is not a keyword of word characters and goes to the other branch, the
  one the source's comment gives to keywords that contain special characters. There it
  is tested by containment, and the empty string is contained in every text: a filter
  whose keyword set for a category has the empty string reports it for every text. The
  constructor puts it there for every raw keyword that is blank.
\<close>

lemma empty_keyword_in_matches:
  assumes "[] \<in> set (get_or (self_keywords self cid) [])"
  shows "[] \<in> set (match_keywords self t cid)"
  using assms by (simp add: match_keywords_member keyword_matches_empty)

lemma blank_keyword_in_index:
  assumes "init lib cfg = Inr self"
    and "distinct (map fst (get_or (cfg_categories cfg) []))"
    and "(cid, cd) \<in> set (get_or (cfg_categories cfg) [])"
    and "raw \<in> set (get_or (cat_keywords cd) [])"
    and "py_lower (py_strip raw) = []"
  shows "[] \<in> set (get_or (self_keywords self cid) [])"
proof -
  from assms(4,5) have "[] \<in> set (normalize_keywords [] (get_or (cat_keywords cd) []))"
    by (force simp: set_normalize_keywords)
  with init_keywords [OF assms(1-3)] show ?thesis by simp
qed

lemma blank_filter_built: "init literal_lib blank_config = Inr blank_filter"
  unfolding blank_filter_def
  by (rule init_keyword_filter) (simp add: regex_section_def blank_config_def get_or_def no_regex_config_def)

text \<open>
  Claim C3, which the code does not keep. The claim is that a keyword that is empty
  after normalization never appears among the matched keywords of a non-empty text. On
  the filter that the constructor builds from the example configuration, whose one
  keyword is three spaces and normalizes to the empty string, the advisory about a
  parser has a non-empty searchable text, and yet the matched keywords of the category
  are the empty keyword; the advisory, which has nothing to do with the category, passes
  the filter with score 25.
\<close>

theorem blank_keyword_matches_unrelated_advisory:
  "py_lower (py_strip ''   '') = []
   \<and> init literal_lib blank_config = Inr blank_filter
   \<and> searchable_text parser_advisory \<noteq> []
   \<and> match_keywords blank_filter (searchable_text parser_advisory) ''misc'' = [[]]
   \<and> map_option relevance_score (filter_advisory literal_lib blank_filter parser_advisory)
       = Some 25"
proof -
  have a: "py_lower (py_strip ''   '') = []"
    by code_simp
  have b: "searchable_text parser_advisory \<noteq> []"
    by code_simp
  have c: "match_keywords blank_filter (searchable_text parser_advisory) ''misc'' = [[]]"
    by code_simp
  have d: "map_option relevance_score (filter_advisory literal_lib blank_filter parser_advisory)
       = Some 25"
    by code_simp
  from a blank_filter_built b c d show ?thesis by blast
qed

subsection \<open>Filter pipeline\<close>

lemma dict_set_not_Nil: "dict_set k v d \<noteq> []"
  by (cases d) (auto split: if_splits)

lemma match_categories_names:
  "snd (match_categories self text (mk, mc) cats) =
     mc @ map category_name (filter (category_matched self text) cats)"
proof (induction cats arbitrary: mk mc)
  case Nil
  show ?case by simp
next
  case (Cons c cats)
  obtain cid cd where c: "c = (cid, cd)" by (cases c)
  show ?case
  proof (cases "match_keywords self text cid = []")
    case True
    with c show ?thesis
      by (simp add: Cons.IH category_matched_def)
  next
    case False
    with c show ?thesis
      by (simp add: Cons.IH category_matched_def category_name_def Let_def)
  qed
qed

lemma match_categories_empty:
  "(fst (match_categories self text (mk, mc) cats) = []) =
     (mk = [] \<and> filter (category_matched self text) cats = [])"
proof (induction cats arbitrary: mk mc)
  case Nil
  show ?case by simp
next
  case (Cons c cats)
  obtain cid cd where c: "c = (cid, cd)" by (cases c)
  show ?case
  proof (cases "match_keywords self text cid = []")
    case True
    with c show ?thesis
      by (simp add: Cons.IH category_matched_def)
  next
    case False
    with c show ?thesis
      by (simp add: Cons.IH category_matched_def dict_set_not_Nil Let_def)
  qed
qed

lemma collect_map_filter:
  "collect lib self acc advs = acc @ List.map_filter (filter_advisory lib self) advs"
proof (induction advs arbitrary: acc)
  case Nil
  show ?case by (simp add: List.map_filter_simps)
next
  case (Cons a advs)
  show ?case
    by (cases "filter_advisory lib self a") (simp_all add: Cons.IH List.map_filter_simps)
qed

lemma filter_advisory_Some:
  assumes "filter_advisory lib self a = Some r"
  shows "sr_advisory r = a"
    and "check_severity self a"
    and "filter (category_matched self (searchable_text a)) (category_items self) \<noteq> []
         \<or> match_regex_patterns lib self (searchable_text a) \<noteq> []"
    and "matched_categories (sr_matches r)
           = map category_name (filter (category_matched self (searchable_text a)) (category_items self))"
    and "matched_patterns (sr_matches r) = match_regex_patterns lib self (searchable_text a)"
    and "relevance_score r = calculate_relevance_score self (sr_matches r) a"
proof -
  obtain mk mc where m: "match_categories self (searchable_text a) ([], []) (category_items self) = (mk, mc)"
    by (cases "match_categories self (searchable_text a) ([], []) (category_items self)")
  from match_categories_names [of self "searchable_text a" "[]" "[]" "category_items self"] m
  have mc: "mc = map category_name (filter (category_matched self (searchable_text a)) (category_items self))"
    by simp
  from match_categories_empty [of self "searchable_text a" "[]" "[]" "category_items self"] m
  have mk: "(mk = []) = (filter (category_matched self (searchable_text a)) (category_items self) = [])"
    by simp
  from assms m have sev: "check_severity self a"
    by (simp add: filter_advisory_def Let_def split: if_splits)
  from assms m sev have ne: "\<not> (mk = [] \<and> match_regex_patterns lib self (searchable_text a) = [])"
    by (simp add: filter_advisory_def Let_def split: if_splits)
  from assms m sev ne
  have r: "r = \<lparr>sr_advisory = a,
               sr_matches = \<lparr>matched_keywords = mk, matched_categories = mc,
                  matched_patterns = match_regex_patterns lib self (searchable_text a)\<rparr>,
               relevance_score = calculate_relevance_score self
                 \<lparr>matched_keywords = mk, matched_categories = mc,
                  matched_patterns = match_regex_patterns lib self (searchable_text a)\<rparr> a\<rparr>"
    by (simp add: filter_advisory_def Let_def split: if_splits)
  from r show "sr_advisory r = a" by simp
  from sev show "check_severity self a" .
  from ne mk show "filter (category_matched self (searchable_text a)) (category_items self) \<noteq> []
         \<or> match_regex_patterns lib self (searchable_text a) \<noteq> []" by blast
  from r mc show "matched_categories (sr_matches r)
           = map category_name (filter (category_matched self (searchable_text a)) (category_items self))"
    by simp
  from r show "matched_patterns (sr_matches r) = match_regex_patterns lib self (searchable_text a)"
    by simp
  from r show "relevance_score r = calculate_relevance_score self (sr_matches r) a" by simp
qed

lemma filter_advisory_None_iff:
  "(filter_advisory lib self a = None) =
     (\<not> check_severity self a
      \<or> (filter (category_matched self (searchable_text a)) (category_items self) = []
         \<and> match_regex_patterns lib self (searchable_text a) = []))"
proof -
  obtain mk mc where m: "match_categories self (searchable_text a) ([], []) (category_items self) = (mk, mc)"
    by (cases "match_categories self (searchable_text a) ([], []) (category_items self)")
  from match_categories_empty [of self "searchable_text a" "[]" "[]" "category_items self"] m
  have mk: "(mk = []) = (filter (category_matched self (searchable_text a)) (category_items self) = [])"
    by simp
  from m mk show ?thesis
    by (simp add: filter_advisory_def Let_def)
qed

lemma set_slice_to: "set (slice_to xs n) \<subseteq> set xs"
  by (auto simp: slice_to_def dest: in_set_takeD)

lemma prefix_slice_to: "prefix (slice_to xs n) xs"
  by (simp add: slice_to_def take_is_prefix)

lemma filter_advisories_unfold:
  "filter_advisories lib self advs =
     slice_to (sort_descending relevance_score (List.map_filter (filter_advisory lib self) advs))
       (get_or (rk_max_results (ranking_section self)) 20)"
  by (simp add: filter_advisories_def Let_def collect_map_filter)

lemma in_filter_advisories:
  assumes "r \<in> set (filter_advisories lib self advs)"
  shows "\<exists>a \<in> set advs. filter_advisory lib self a = Some r"
proof -
  define xs where "xs = sort_descending relevance_score (List.map_filter (filter_advisory lib self) advs)"
  from assms have "r \<in> set (slice_to xs (get_or (rk_max_results (ranking_section self)) 20))"
    by (simp only: filter_advisories_unfold xs_def)
  with set_slice_to [of xs "get_or (rk_max_results (ranking_section self)) 20"]
  have "r \<in> set xs" by (rule subsetD)
  then have "r \<in> set (List.map_filter (filter_advisory lib self) advs)"
    by (simp add: xs_def sort_descending_def)
  then obtain a where "a \<in> set advs" and "filter_advisory lib self a = Some r"
    by (auto simp: List.map_filter_def)
  then show ?thesis by blast
qed

subsection \<open>Scorer\<close>

lemma total_keyword_matches:
  "sum_list (map (\<lambda>(name, kws). int (length kws)) d) = int (length (concat (map snd d)))"
  by (induction d) auto

text \<open>
  Claim C4. With ranking enabled, the relevance score is the number of matched keywords
  over all categories times the \<open>exact_match\<close> weight, plus the number of matched
  categories times the \<open>category_match\<close> weight, plus the number of matched patterns
  times the \<open>regex_match\<close> weight, plus one severity bonus: the critical, high or medium
  weight for that lower-cased severity and nothing for any other. With the default
  weights, an advisory of severity critical that matches one keyword in one category
  and no pattern scores 10 + 5 + 15 = 30.
\<close>

theorem calculate_relevance_score_formula:
  assumes "get_or (rk_enabled (ranking_section self)) True"
  shows "calculate_relevance_score self m a =
           spec_relevance_score (get_or (rk_weights (ranking_section self)) no_weights) m
             (py_lower (get_or (adv_severity a) []))
         \<and> (get_or (rk_weights (ranking_section self)) no_weights = no_weights
              \<and> py_lower (get_or (adv_severity a) []) = ''critical''
              \<and> matched_keywords m = [(name, [k])] \<and> matched_categories m = [name]
              \<and> matched_patterns m = [] \<longrightarrow>
            calculate_relevance_score self m a = 30)"
proof -
  from assms have eq: "calculate_relevance_score self m a =
           spec_relevance_score (get_or (rk_weights (ranking_section self)) no_weights) m
             (py_lower (get_or (adv_severity a) []))"
    by (simp add: calculate_relevance_score_def spec_relevance_score_def
        spec_severity_bonus_def Let_def total_keyword_matches)
  have "spec_relevance_score no_weights m ''critical'' = 30"
    if "matched_keywords m = [(name, [k])]" "matched_categories m = [name]"
       "matched_patterns m = []"
    using that
    by (simp add: spec_relevance_score_def spec_severity_bonus_def no_weights_def get_or_def)
  with eq show ?thesis by simp
qed

text \<open>The first advisory of the scenario matches \<open>sql injection\<close> in the category
  \<open>injection\<close> and scores 30.\<close>

theorem calculate_relevance_score_formula_witness:
  "get_or (rk_enabled (ranking_section scenario_filter)) True
   \<and> map_option sr_matches (filter_advisory literal_lib scenario_filter cve_0001)
       = Some sql_injection_matches
   \<and> calculate_relevance_score scenario_filter sql_injection_matches cve_0001 = 30"
proof -
  have en: "get_or (rk_enabled (ranking_section scenario_filter)) True"
    by code_simp
  have m: "map_option sr_matches (filter_advisory literal_lib scenario_filter cve_0001)
       = Some sql_injection_matches"
    by code_simp
  have w: "get_or (rk_weights (ranking_section scenario_filter)) no_weights = no_weights"
    by code_simp
  have s: "py_lower (get_or (adv_severity cve_0001) []) = ''critical''"
    by code_simp
  have k: "matched_keywords sql_injection_matches = [(''injection'', [''sql injection''])]"
    and c: "matched_categories sql_injection_matches = [''injection'']"
    and p: "matched_patterns sql_injection_matches = []"
    by (simp_all add: sql_injection_matches_def)
  from calculate_relevance_score_formula [OF en, of sql_injection_matches cve_0001
         "''injection''" "''sql injection''"] w s k c p
  have "calculate_relevance_score scenario_filter sql_injection_matches cve_0001 = 30"
    by blast
  with en m show ?thesis by blast
qed

subsection \<open>Results of the pipeline\<close>

lemma category_filter_nonempty:
  "(filter (category_matched self t) cats \<noteq> []) =
     (\<exists>item \<in> set cats. match_keywords self t (fst item) \<noteq> [])"
  by (simp add: filter_empty_conv category_matched_def)

lemma match_regex_patterns_nonempty:
  "(match_regex_patterns lib self t \<noteq> []) =
     (\<exists>p \<in> set (self_regex_patterns self). re_search lib (cp_pattern p) t)"
  by (simp add: match_regex_patterns_def filter_empty_conv)

text \<open>
  Claim C5. A result in the output of the pipeline comes from an advisory of the input
  batch that passed the severity gate and for which a keyword of some category or a
  compiled pattern matched the searchable text. An advisory that fails the gate, or
  that no keyword and no pattern matches, is the advisory of no result.
\<close>

theorem filter_advisories_admitted_and_matched:
  "(r \<in> set (filter_advisories lib self advs) \<longrightarrow>
      sr_advisory r \<in> set advs
      \<and> check_severity self (sr_advisory r)
      \<and> ((\<exists>item \<in> set (category_items self).
             match_keywords self (searchable_text (sr_advisory r)) (fst item) \<noteq> [])
         \<or> (\<exists>p \<in> set (self_regex_patterns self).
               re_search lib (cp_pattern p) (searchable_text (sr_advisory r)))))
   \<and> (\<not> check_severity self a
        \<or> ((\<forall>item \<in> set (category_items self).
               match_keywords self (searchable_text a) (fst item) = [])
           \<and> (\<forall>p \<in> set (self_regex_patterns self).
                 \<not> re_search lib (cp_pattern p) (searchable_text a))) \<longrightarrow>
      a \<notin> sr_advisory ` set (filter_advisories lib self advs))"
proof -
  have kept: "sr_advisory r \<in> set advs
      \<and> check_severity self (sr_advisory r)
      \<and> ((\<exists>item \<in> set (category_items self).
             match_keywords self (searchable_text (sr_advisory r)) (fst item) \<noteq> [])
         \<or> (\<exists>p \<in> set (self_regex_patterns self).
               re_search lib (cp_pattern p) (searchable_text (sr_advisory r))))"
    if "r \<in> set (filter_advisories lib self advs)"
  proof -
    from that obtain a' where a': "a' \<in> set advs" and f: "filter_advisory lib self a' = Some r"
      using in_filter_advisories by blast
    from filter_advisory_Some(1-3) [OF f] a' show ?thesis
      by (simp add: category_filter_nonempty match_regex_patterns_nonempty)
  qed
  have dropped: "a \<notin> sr_advisory ` set (filter_advisories lib self advs)"
    if ex: "\<not> check_severity self a
        \<or> ((\<forall>item \<in> set (category_items self).
               match_keywords self (searchable_text a) (fst item) = [])
           \<and> (\<forall>p \<in> set (self_regex_patterns self).
                 \<not> re_search lib (cp_pattern p) (searchable_text a)))"
  proof
    assume "a \<in> sr_advisory ` set (filter_advisories lib self advs)"
    then obtain r' where r': "r' \<in> set (filter_advisories lib self advs)"
      and a: "a = sr_advisory r'" by blast
    from r' obtain a' where f: "filter_advisory lib self a' = Some r'"
      using in_filter_advisories by blast
    from filter_advisory_Some(1) [OF f] a have "a' = a" by simp
    with filter_advisory_Some(2,3) [OF f]
    have "check_severity self a
      \<and> ((\<exists>item \<in> set (category_items self).
             match_keywords self (searchable_text a) (fst item) \<noteq> [])
         \<or> (\<exists>p \<in> set (self_regex_patterns self).
               re_search lib (cp_pattern p) (searchable_text a)))"
      by (simp add: category_filter_nonempty match_regex_patterns_nonempty)
    with ex show False by blast
  qed
  from kept dropped show ?thesis by blast
qed

text \<open>In the scenario, extended by an advisory on another subject, the one result is the
  advisory that passed the gate and matched; the advisory below the CVSS floor is in no
  result.\<close>

theorem filter_advisories_admitted_and_matched_witness:
  "filter_advisories literal_lib scenario_filter [cve_0001, cve_0002, parser_advisory]
     = [\<lparr>sr_advisory = cve_0001, sr_matches = sql_injection_matches, relevance_score = 30\<rparr>]
   \<and> check_severity scenario_filter cve_0001
   \<and> ((\<exists>item \<in> set (category_items scenario_filter).
          match_keywords scenario_filter (searchable_text cve_0001) (fst item) \<noteq> [])
      \<or> (\<exists>p \<in> set (self_regex_patterns scenario_filter).
            re_search literal_lib (cp_pattern p) (searchable_text cve_0001)))
   \<and> \<not> check_severity scenario_filter cve_0002
   \<and> cve_0002 \<notin> sr_advisory ` set (filter_advisories literal_lib scenario_filter
                                      [cve_0001, cve_0002, parser_advisory])"
proof -
  have out: "filter_advisories literal_lib scenario_filter [cve_0001, cve_0002, parser_advisory]
     = [\<lparr>sr_advisory = cve_0001, sr_matches = sql_injection_matches, relevance_score = 30\<rparr>]"
    by code_simp
  then have mem: "\<lparr>sr_advisory = cve_0001, sr_matches = sql_injection_matches, relevance_score = 30\<rparr>
      \<in> set (filter_advisories literal_lib scenario_filter [cve_0001, cve_0002, parser_advisory])"
    by simp
  have rej: "\<not> check_severity scenario_filter cve_0002"
    by code_simp
  from filter_advisories_admitted_and_matched
         [of "\<lparr>sr_advisory = cve_0001, sr_matches = sql_injection_matches, relevance_score = 30\<rparr>"
             literal_lib scenario_filter "[cve_0001, cve_0002, parser_advisory]" cve_0002] mem rej
  have "check_severity scenario_filter cve_0001
   \<and> ((\<exists>item \<in> set (category_items scenario_filter).
          match_keywords scenario_filter (searchable_text cve_0001) (fst item) \<noteq> [])
      \<or> (\<exists>p \<in> set (self_regex_patterns scenario_filter).
            re_search literal_lib (cp_pattern p) (searchable_text cve_0001)))
   \<and> cve_0002 \<notin> sr_advisory ` set (filter_advisories literal_lib scenario_filter
                                      [cve_0001, cve_0002, parser_advisory])"
    by simp
  with out rej show ?thesis by blast
qed

subsection \<open>Pattern matcher\<close>

lemma compile_loop_no_raise:
  assumes "\<forall>pc \<in> set pcs. \<forall>e. re_compile lib (pc_pattern pc) \<noteq> Raises e"
  shows "compile_loop lib acc pcs = Inr (acc @ concat (map (compile_entry lib) pcs))"
  using assms
proof (induction pcs arbitrary: acc)
  case Nil
  show ?case by simp
next
  case (Cons pc pcs)
  then have rest: "\<forall>pc \<in> set pcs. \<forall>e. re_compile lib (pc_pattern pc) \<noteq> Raises e"
    and here: "\<forall>e. re_compile lib (pc_pattern pc) \<noteq> Raises e" by simp_all
  from here show ?case
    by (cases "re_compile lib (pc_pattern pc)") (simp_all add: Cons.IH [OF rest] compile_entry_def)
qed

lemma compile_loop_raises:
  assumes "\<forall>pc \<in> set good. \<forall>e. re_compile lib (pc_pattern pc) \<noteq> Raises e"
    and "re_compile lib (pc_pattern bad) = Raises e"
  shows "compile_loop lib acc (good @ bad # rest) = Inl e"
  using assms
proof (induction good arbitrary: acc)
  case Nil
  then show ?case by simp
next
  case (Cons pc good)
  then have rest: "\<forall>pc \<in> set good. \<forall>e. re_compile lib (pc_pattern pc) \<noteq> Raises e"
    and here: "\<forall>e. re_compile lib (pc_pattern pc) \<noteq> Raises e" by simp_all
  from here show ?case
    by (cases "re_compile lib (pc_pattern pc)") (simp_all add: Cons.IH [OF rest Cons.prems(2)])
qed

lemma originals_compile_entries:
  "map cp_original (concat (map (compile_entry lib) pcs))
     = filter (\<lambda>p. \<exists>c. re_compile lib p = Compiled c) (map pc_pattern pcs)"
proof (induction pcs)
  case Nil
  show ?case by simp
next
  case (Cons pc pcs)
  then show ?case
    by (cases "re_compile lib (pc_pattern pc)") (simp_all add: compile_entry_def)
qed

text \<open>
  Where \<open>re.compile\<close> raises nothing but \<open>re.error\<close> on the configured patterns, the
  constructor does what the handler is there for: it builds the filter, and the
  patterns of the filter are the configured patterns that compile, in their order.
\<close>

lemma init_skips_re_errors:
  assumes "get_or (rx_enabled (regex_section cfg)) True"
    and "\<forall>pc \<in> set (get_or (rx_patterns (regex_section cfg)) []).
           \<forall>e. re_compile lib (pc_pattern pc) \<noteq> Raises e"
  shows "\<exists>self. init lib cfg = Inr self
           \<and> self_regex_patterns self
               = concat (map (compile_entry lib) (get_or (rx_patterns (regex_section cfg)) []))
           \<and> map cp_original (self_regex_patterns self)
               = filter (\<lambda>p. \<exists>c. re_compile lib p = Compiled c)
                   (map pc_pattern (get_or (rx_patterns (regex_section cfg)) []))"
  using assms
  by (simp add: init_def compile_regex_patterns_def Let_def compile_loop_no_raise
      originals_compile_entries)

lemma init_disabled:
  assumes "\<not> get_or (rx_enabled (regex_section cfg)) True"
  shows "\<exists>self. init lib cfg = Inr self \<and> self_regex_patterns self = []"
  using assms by (simp add: init_def compile_regex_patterns_def Let_def)

lemma pattern_filter_built: "init literal_lib pattern_config = Inr pattern_filter"
  by (simp add: init_def compile_regex_patterns_def Let_def pattern_filter_def
      pattern_config_def regex_section_def get_or_def literal_lib_def)

text \<open>
  Claim C9, which the code does not keep. The claim is that a pattern that fails to
  compile is skipped without aborting and that processing goes on with the remaining
  patterns. The handler of the compile loop catches \<open>re.error\<close> only. For the pattern
  \<open>(\<close>, where \<open>re.compile\<close> raises \<open>re.error\<close>, the constructor does skip it and keeps
  the pattern \<open>overflow\<close> that follows. For the pattern \<open>a{4294967296}\<close>, which fails to
  compile with \<open>OverflowError\<close>, the exception leaves the constructor: no filter is
  built, and the pattern \<open>overflow\<close> that follows, which compiles, is never reached.
\<close>

theorem oversized_repetition_aborts_init:
  "re_compile literal_lib ''('' = Re_error
   \<and> init literal_lib pattern_config = Inr pattern_filter
   \<and> map cp_original (self_regex_patterns pattern_filter) = [''overflow'']
   \<and> re_compile literal_lib ''a{4294967296}'' = Raises OverflowError
   \<and> re_compile literal_lib ''overflow'' = Compiled ''overflow''
   \<and> init literal_lib oversized_config = Inl OverflowError"
proof -
  have a: "re_compile literal_lib ''('' = Re_error"
    by (simp add: literal_lib_def)
  have b: "map cp_original (self_regex_patterns pattern_filter) = [''overflow'']"
    by (simp add: pattern_filter_def)
  have c: "re_compile literal_lib ''a{4294967296}'' = Raises OverflowError"
    by (simp add: literal_lib_def)
  have d: "re_compile literal_lib ''overflow'' = Compiled ''overflow''"
    by (simp add: literal_lib_def)
  have e: "init literal_lib oversized_config = Inl OverflowError"
    by (simp add: init_def compile_regex_patterns_def Let_def oversized_config_def
        regex_section_def get_or_def literal_lib_def)
  from a pattern_filter_built b c d e show ?thesis by blast
qed

subsection \<open>The advisory of a result\<close>

text \<open>Each method over the store computes the value of the method on the object and
  returns the store as it found it.\<close>

lemma check_severity_obj_eq:
  "check_severity_obj self d h = (check_severity self (h d), h)"
  by (simp add: check_severity_obj_def check_severity_def dict_get_def Let_def)

lemma searchable_text_obj_eq:
  "searchable_text_obj d h = (searchable_text (h d), h)"
  by (simp add: searchable_text_obj_def searchable_text_def dict_get_def Let_def)

lemma calculate_relevance_score_obj_eq:
  "calculate_relevance_score_obj self m d h = (calculate_relevance_score self m (h d), h)"
  by (simp add: calculate_relevance_score_obj_def calculate_relevance_score_def dict_get_def Let_def)

lemma filter_advisory_obj_store: "snd (filter_advisory_obj lib self d h) = h"
  by (simp add: filter_advisory_obj_def check_severity_obj_eq searchable_text_obj_eq
      calculate_relevance_score_obj_eq Let_def split: prod.splits)

lemma filter_advisory_obj_ref:
  "fst (filter_advisory_obj lib self d h) = Some r \<Longrightarrow> or_advisory r = d"
  by (auto simp: filter_advisory_obj_def check_severity_obj_eq searchable_text_obj_eq
      calculate_relevance_score_obj_eq Let_def split: prod.splits if_splits)

lemma filter_advisory_obj_scored:
  "map_option (as_scored h) (fst (filter_advisory_obj lib self d h)) = filter_advisory lib self (h d)"
  by (simp add: filter_advisory_obj_def filter_advisory_def check_severity_obj_eq
      searchable_text_obj_eq calculate_relevance_score_obj_eq as_scored_def Let_def
      split: prod.splits)

lemma filter_advisory_obj_split:
  "filter_advisory_obj lib self d h = (fst (filter_advisory_obj lib self d h), h)"
  using filter_advisory_obj_store [of lib self d h] by (simp add: prod_eq_iff)

lemma collect_obj_acc:
  "collect_obj lib self acc ds h
     = (acc @ List.map_filter (\<lambda>d. fst (filter_advisory_obj lib self d h)) ds, h)"
proof (induction ds arbitrary: acc)
  case Nil
  show ?case by (simp add: List.map_filter_simps)
next
  case (Cons d ds)
  show ?case
  proof (cases "fst (filter_advisory_obj lib self d h)")
    case None
    with filter_advisory_obj_split [of lib self d h]
    have "filter_advisory_obj lib self d h = (None, h)" by simp
    with None show ?thesis by (simp add: Cons.IH List.map_filter_simps)
  next
    case (Some r)
    with filter_advisory_obj_split [of lib self d h]
    have "filter_advisory_obj lib self d h = (Some r, h)" by simp
    with Some show ?thesis by (simp add: Cons.IH List.map_filter_simps)
  qed
qed

lemma filter_advisories_obj_unfold:
  "filter_advisories_obj lib self ds h
     = (slice_to (sort_descending or_relevance_score
                    (List.map_filter (\<lambda>d. fst (filter_advisory_obj lib self d h)) ds))
          (get_or (rk_max_results (ranking_section self)) 20), h)"
  by (simp add: filter_advisories_obj_def collect_obj_acc Let_def)

lemma in_filter_advisories_obj:
  assumes "r \<in> set (fst (filter_advisories_obj lib self ds h))"
  shows "\<exists>d \<in> set ds. fst (filter_advisory_obj lib self d h) = Some r"
proof -
  define xs where "xs = sort_descending or_relevance_score
                    (List.map_filter (\<lambda>d. fst (filter_advisory_obj lib self d h)) ds)"
  from assms have "r \<in> set (slice_to xs (get_or (rk_max_results (ranking_section self)) 20))"
    by (simp add: filter_advisories_obj_unfold xs_def)
  with set_slice_to [of xs "get_or (rk_max_results (ranking_section self)) 20"]
  have "r \<in> set xs" by (rule subsetD)
  then have "r \<in> set (List.map_filter (\<lambda>d. fst (filter_advisory_obj lib self d h)) ds)"
    by (simp add: xs_def sort_descending_def)
  then obtain d where "d \<in> set ds" and "fst (filter_advisory_obj lib self d h) = Some r"
    by (auto simp: List.map_filter_def)
  then show ?thesis by blast
qed

text \<open>The pipeline over the store computes what the pipeline on values computes from
  the objects of the batch.\<close>

lemma map_insort_key:
  assumes "\<And>x. key' (f x) = key x"
  shows "map f (insort_key key x ys) = insort_key key' (f x) (map f ys)"
  by (induction ys) (simp_all add: assms)

lemma map_sort_key:
  assumes "\<And>x. key' (f x) = key x"
  shows "map f (sort_key key xs) = sort_key key' (map f xs)"
  by (induction xs) (simp_all add: map_insort_key [where key' = key', OF assms])

lemma map_sort_descending:
  assumes "\<And>x. key' (f x) = key x"
  shows "map f (sort_descending key xs) = sort_descending key' (map f xs)"
  unfolding sort_descending_def
  by (rule map_sort_key) (simp add: assms)

lemma map_slice_to: "map f (slice_to xs n) = slice_to (map f xs) n"
  by (simp add: slice_to_def take_map)

lemma collected_obj_scored:
  "map (as_scored h) (List.map_filter (\<lambda>d. fst (filter_advisory_obj lib self d h)) ds)
     = List.map_filter (filter_advisory lib self) (map h ds)"
proof (induction ds)
  case Nil
  show ?case by (simp add: List.map_filter_simps)
next
  case (Cons d ds)
  show ?case
  proof (cases "fst (filter_advisory_obj lib self d h)")
    case None
    with filter_advisory_obj_scored [of h lib self d]
    have "filter_advisory lib self (h d) = None" by simp
    with None Cons.IH show ?thesis by (simp add: List.map_filter_simps)
  next
    case (Some r)
    with filter_advisory_obj_scored [of h lib self d]
    have "filter_advisory lib self (h d) = Some (as_scored h r)" by simp
    with Some Cons.IH show ?thesis by (simp add: List.map_filter_simps)
  qed
qed

lemma filter_advisories_obj_scored:
  "map (as_scored h) (fst (filter_advisories_obj lib self ds h))
     = filter_advisories lib self (map h ds)"
proof -
  have key: "\<And>r. relevance_score (as_scored h r) = or_relevance_score r"
    by (simp add: as_scored_def)
  show ?thesis
    by (simp add: filter_advisories_obj_unfold filter_advisories_unfold map_slice_to
        map_sort_descending [where key' = relevance_score, OF key] collected_obj_scored)
qed

text \<open>
  Claim C10. The pipeline never modifies a field of an advisory, and the \<open>advisory\<close>
  field of a result is the input advisory itself. Over the store of advisory objects:
  the gate, the building of the searchable text, the scorer, \<open>filter_advisory\<close> and the
  pipeline over a batch each leave the store as it was, so every field of every advisory
  is what it was before the call; a result of \<open>filter_advisory\<close> holds the reference it
  was given; an advisory that passes the gate and matches does have such a result; and
  every result of the pipeline holds a reference of the input batch and is the result
  computed from that advisory.
\<close>

theorem advisories_left_as_given:
  "snd (check_severity_obj self d h) = h
   \<and> snd (searchable_text_obj d h) = h
   \<and> snd (calculate_relevance_score_obj self m d h) = h
   \<and> snd (filter_advisory_obj lib self d h) = h
   \<and> snd (filter_advisories_obj lib self ds h) = h
   \<and> (fst (filter_advisory_obj lib self d h) = Some r \<longrightarrow> or_advisory r = d)
   \<and> (check_severity self (h d)
        \<and> ((\<exists>item \<in> set (category_items self).
               match_keywords self (searchable_text (h d)) (fst item) \<noteq> [])
           \<or> (\<exists>p \<in> set (self_regex_patterns self).
                 re_search lib (cp_pattern p) (searchable_text (h d)))) \<longrightarrow>
        (\<exists>r'. fst (filter_advisory_obj lib self d h) = Some r' \<and> or_advisory r' = d))
   \<and> (r \<in> set (fst (filter_advisories_obj lib self ds h)) \<longrightarrow>
        or_advisory r \<in> set ds
        \<and> fst (filter_advisory_obj lib self (or_advisory r) h) = Some r)"
proof -
  have gate: "snd (check_severity_obj self d h) = h"
    by (simp add: check_severity_obj_eq)
  have reads: "snd (searchable_text_obj d h) = h"
    by (simp add: searchable_text_obj_eq)
  have score: "snd (calculate_relevance_score_obj self m d h) = h"
    by (simp add: calculate_relevance_score_obj_eq)
  have one: "snd (filter_advisory_obj lib self d h) = h"
    by (rule filter_advisory_obj_store)
  have batch: "snd (filter_advisories_obj lib self ds h) = h"
    by (simp add: filter_advisories_obj_unfold)
  have same: "or_advisory r = d" if "fst (filter_advisory_obj lib self d h) = Some r"
    using that by (rule filter_advisory_obj_ref)
  have present: "\<exists>r'. fst (filter_advisory_obj lib self d h) = Some r' \<and> or_advisory r' = d"
    if "check_severity self (h d)
        \<and> ((\<exists>item \<in> set (category_items self).
               match_keywords self (searchable_text (h d)) (fst item) \<noteq> [])
           \<or> (\<exists>p \<in> set (self_regex_patterns self).
                 re_search lib (cp_pattern p) (searchable_text (h d))))"
  proof -
    from that have "filter_advisory lib self (h d) \<noteq> None"
      by (simp add: filter_advisory_None_iff category_filter_nonempty [symmetric]
          match_regex_patterns_nonempty [symmetric])
    with filter_advisory_obj_scored [of h lib self d]
    have "fst (filter_advisory_obj lib self d h) \<noteq> None" by auto
    then obtain r' where r': "fst (filter_advisory_obj lib self d h) = Some r'" by blast
    then have "or_advisory r' = d" by (rule filter_advisory_obj_ref)
    with r' show ?thesis by blast
  qed
  have listed: "or_advisory r \<in> set ds
        \<and> fst (filter_advisory_obj lib self (or_advisory r) h) = Some r"
    if "r \<in> set (fst (filter_advisories_obj lib self ds h))"
  proof -
    from that obtain d' where d': "d' \<in> set ds"
      and f: "fst (filter_advisory_obj lib self d' h) = Some r"
      using in_filter_advisories_obj by blast
    from f have "or_advisory r = d'" by (rule filter_advisory_obj_ref)
    with d' f show ?thesis by simp
  qed
  from gate reads score one batch same present listed show ?thesis by blast
qed

text \<open>In the example store the first advisory of the scenario is the object 1: its
  result holds the reference 1, it is the one result of the batch of the three
  objects, and the store after the batch is the store before it.\<close>

theorem advisories_left_as_given_witness:
  "fst (filter_advisory_obj literal_lib scenario_filter 1 example_store)
     = Some \<lparr>or_advisory = 1, or_matches = sql_injection_matches, or_relevance_score = 30\<rparr>
   \<and> check_severity scenario_filter (example_store 1)
   \<and> (\<exists>item \<in> set (category_items scenario_filter).
         match_keywords scenario_filter (searchable_text (example_store 1)) (fst item) \<noteq> [])
   \<and> (\<exists>r'. fst (filter_advisory_obj literal_lib scenario_filter 1 example_store) = Some r'
              \<and> or_advisory r' = 1)
   \<and> fst (filter_advisories_obj literal_lib scenario_filter [0, 1, 2] example_store)
     = [\<lparr>or_advisory = 1, or_matches = sql_injection_matches, or_relevance_score = 30\<rparr>]
   \<and> or_advisory \<lparr>or_advisory = 1, or_matches = sql_injection_matches, or_relevance_score = 30\<rparr>
       \<in> set [0, 1, 2]
   \<and> snd (filter_advisories_obj literal_lib scenario_filter [0, 1, 2] example_store) = example_store
   \<and> example_store 1 = cve_0001"
proof -
  define r where "r = \<lparr>or_advisory = 1, or_matches = sql_injection_matches, or_relevance_score = 30\<rparr>"
  have one: "fst (filter_advisory_obj literal_lib scenario_filter 1 example_store) = Some r"
    unfolding r_def by code_simp
  have sev: "check_severity scenario_filter (example_store 1)"
    by code_simp
  have kw: "\<exists>item \<in> set (category_items scenario_filter).
         match_keywords scenario_filter (searchable_text (example_store 1)) (fst item) \<noteq> []"
    by code_simp
  have out: "fst (filter_advisories_obj literal_lib scenario_filter [0, 1, 2] example_store) = [r]"
    unfolding r_def by code_simp
  then have mem: "r \<in> set (fst (filter_advisories_obj literal_lib scenario_filter [0, 1, 2] example_store))"
    by simp
  have obj: "example_store 1 = cve_0001"
    by (simp add: example_store_def)
  note frame = advisories_left_as_given
         [where self = scenario_filter and lib = literal_lib and d = 1 and h = example_store
            and ds = "[0, 1, 2]" and r = r]
  from frame have store: "snd (filter_advisories_obj literal_lib scenario_filter [0, 1, 2] example_store)
      = example_store"
    by blast
  from frame sev kw
  have ex: "\<exists>r'. fst (filter_advisory_obj literal_lib scenario_filter 1 example_store) = Some r'
              \<and> or_advisory r' = 1"
    by blast
  from frame mem have inp: "or_advisory r \<in> set [0, 1, 2]"
    by blast
  from one sev kw ex out inp store obj show ?thesis
    unfolding r_def by blast
qed

subsection \<open>Order of the results\<close>

lemma nth_pair_subseq:
  assumes "i < j" and "j < length xs"
  shows "subseq [xs ! i, xs ! j] xs"
proof -
  from assms have i: "i < length xs" by simp
  then have split: "xs = take i xs @ xs ! i # drop (Suc i) xs"
    by (rule id_take_nth_drop)
  from assms have "xs ! j = drop (Suc i) xs ! (j - Suc i)" by simp
  moreover from assms have "j - Suc i < length (drop (Suc i) xs)" by simp
  ultimately have "xs ! j \<in> set (drop (Suc i) xs)" by (metis nth_mem)
  then have "subseq [xs ! j] (drop (Suc i) xs)" by (simp add: subseq_singleton_left)
  then have "subseq (xs ! i # [xs ! j]) (xs ! i # drop (Suc i) xs)" by (rule subseq_Cons2)
  then have "subseq [xs ! i, xs ! j] (take i xs @ xs ! i # drop (Suc i) xs)"
    by (rule list_emb_append2)
  with split show ?thesis by simp
qed

lemma filter_sort_descending:
  "filter (\<lambda>x. key x = k) (sort_descending key xs) = filter (\<lambda>x. key x = k) xs"
proof -
  have "filter (\<lambda>x. - key x = - k) (sort_key (\<lambda>x. - key x) xs) = filter (\<lambda>x. - key x = - k) xs"
    by (rule sort_key_stable)
  then show ?thesis by (simp add: sort_descending_def)
qed

lemma advisories_of_collected:
  "map sr_advisory (List.map_filter (filter_advisory lib self) advs)
     = filter (\<lambda>a. filter_advisory lib self a \<noteq> None) advs"
proof (induction advs)
  case Nil
  show ?case by (simp add: List.map_filter_simps)
next
  case (Cons a advs)
  show ?case
  proof (cases "filter_advisory lib self a")
    case None
    with Cons.IH show ?thesis by (simp add: List.map_filter_simps)
  next
    case (Some r)
    from filter_advisory_Some(1) [OF Some] Some Cons.IH show ?thesis
      by (simp add: List.map_filter_simps)
  qed
qed

lemma equal_scores_prefix:
  "prefix (filter (\<lambda>r. relevance_score r = k) (filter_advisories lib self advs))
          (filter (\<lambda>r. relevance_score r = k) (collect lib self [] advs))"
proof -
  define xs where "xs = sort_descending relevance_score (collect lib self [] advs)"
  have "prefix (filter_advisories lib self advs) xs"
    by (simp add: filter_advisories_def Let_def xs_def prefix_slice_to)
  then have "prefix (filter (\<lambda>r. relevance_score r = k) (filter_advisories lib self advs))
                    (filter (\<lambda>r. relevance_score r = k) xs)"
    by (rule filter_mono_prefix)
  then show ?thesis by (simp add: xs_def filter_sort_descending)
qed

text \<open>
  Claim C6. The final sort is stable. The results of any one score stand in the output
  in the order in which the loop collected them, which is the order of the input batch:
  they are an initial part of the collected results of that score. So two results of
  equal score at positions \<open>i < j\<close> of the output were collected in that order, and
  their advisories occur in that order in the input batch.
\<close>

theorem filter_advisories_stable:
  "prefix (filter (\<lambda>r. relevance_score r = k) (filter_advisories lib self advs))
          (filter (\<lambda>r. relevance_score r = k) (collect lib self [] advs))
   \<and> (i < j \<and> j < length (filter_advisories lib self advs)
        \<and> relevance_score (filter_advisories lib self advs ! i)
            = relevance_score (filter_advisories lib self advs ! j) \<longrightarrow>
      subseq [filter_advisories lib self advs ! i, filter_advisories lib self advs ! j]
             (collect lib self [] advs)
      \<and> subseq [sr_advisory (filter_advisories lib self advs ! i),
                 sr_advisory (filter_advisories lib self advs ! j)] advs)"
proof -
  define out where "out = filter_advisories lib self advs"
  define coll where "coll = collect lib self [] advs"
  have pairs: "subseq [out ! i, out ! j] coll
               \<and> subseq [sr_advisory (out ! i), sr_advisory (out ! j)] advs"
    if ij: "i < j" and j: "j < length out"
      and eq: "relevance_score (out ! i) = relevance_score (out ! j)"
  proof -
    define s where "s = relevance_score (out ! j)"
    from ij j have "subseq [out ! i, out ! j] out" by (rule nth_pair_subseq)
    then have "subseq (filter (\<lambda>r. relevance_score r = s) [out ! i, out ! j])
                      (filter (\<lambda>r. relevance_score r = s) out)"
      by (rule subseq_filter)
    with eq have a: "subseq [out ! i, out ! j] (filter (\<lambda>r. relevance_score r = s) out)"
      by (simp add: s_def)
    have b: "subseq (filter (\<lambda>r. relevance_score r = s) out)
                    (filter (\<lambda>r. relevance_score r = s) coll)"
      unfolding out_def coll_def by (rule prefix_imp_subseq [OF equal_scores_prefix])
    have c: "subseq (filter (\<lambda>r. relevance_score r = s) coll) coll"
      by (rule subseq_filter_left)
    from a b have "subseq [out ! i, out ! j] (filter (\<lambda>r. relevance_score r = s) coll)"
      by (rule subseq_order.trans)
    from this c have d: "subseq [out ! i, out ! j] coll"
      by (rule subseq_order.trans)
    then have "subseq (map sr_advisory [out ! i, out ! j]) (map sr_advisory coll)"
      by (rule subseq_map)
    then have e: "subseq [sr_advisory (out ! i), sr_advisory (out ! j)] (map sr_advisory coll)"
      by simp
    have f: "subseq (map sr_advisory coll) advs"
      by (simp add: coll_def collect_map_filter advisories_of_collected)
    from e f have "subseq [sr_advisory (out ! i), sr_advisory (out ! j)] advs"
      by (rule subseq_order.trans)
    with d show ?thesis by simp
  qed
  from equal_scores_prefix [of k lib self advs] pairs show ?thesis
    unfolding out_def coll_def by blast
qed

text \<open>Two advisories of score 15 given ahead of one of score 30 come out after it, in
  the order in which they were given.\<close>

theorem filter_advisories_stable_witness:
  "map relevance_score (filter_advisories literal_lib scenario_filter [cve_0003, cve_0004, cve_0001])
     = [30, 15, 15]
   \<and> map sr_advisory (filter_advisories literal_lib scenario_filter [cve_0003, cve_0004, cve_0001])
     = [cve_0001, cve_0003, cve_0004]
   \<and> subseq [sr_advisory (filter_advisories literal_lib scenario_filter [cve_0003, cve_0004, cve_0001] ! 1),
              sr_advisory (filter_advisories literal_lib scenario_filter [cve_0003, cve_0004, cve_0001] ! 2)]
       [cve_0003, cve_0004, cve_0001]"
proof -
  define out where "out = filter_advisories literal_lib scenario_filter [cve_0003, cve_0004, cve_0001]"
  have sc: "map relevance_score out = [30, 15, 15]"
    unfolding out_def by code_simp
  have ad: "map sr_advisory out = [cve_0001, cve_0003, cve_0004]"
    unfolding out_def by code_simp
  from sc have "length (map relevance_score out) = 3" by simp
  then have len: "length out = 3" by simp
  from len have "map relevance_score out ! 1 = relevance_score (out ! 1)"
    and "map relevance_score out ! 2 = relevance_score (out ! 2)" by simp_all
  with sc have eq: "relevance_score (out ! 1) = relevance_score (out ! 2)" by simp
  from len eq have pre: "(1::nat) < 2 \<and> 2 < length out
      \<and> relevance_score (out ! 1) = relevance_score (out ! 2)"
    by simp
  note stable = filter_advisories_stable
         [of 15 literal_lib scenario_filter "[cve_0003, cve_0004, cve_0001]" 1 2, folded out_def]
  from stable pre
  have "subseq [sr_advisory (out ! 1), sr_advisory (out ! 2)] [cve_0003, cve_0004, cve_0001]"
    by blast
  with sc ad show ?thesis unfolding out_def by blast
qed

subsection \<open>Truncation\<close>

lemma length_slice_to_nonneg:
  "0 \<le> n \<Longrightarrow> int (length (slice_to xs n)) \<le> n"
  by (simp add: slice_to_def)

lemma slice_to_zero: "slice_to xs 0 = []"
  by (simp add: slice_to_def)

lemma slice_to_all: "int (length xs) \<le> n \<Longrightarrow> slice_to xs n = xs"
  by (simp add: slice_to_def)

text \<open>
  Claim C7, as amended. For a configured \<open>max_results\<close> that is not negative, the output
  has at most \<open>max_results\<close> results; with \<open>max_results = 0\<close> it is empty whatever
  matched; and when \<open>max_results\<close> is at least the number of collected results, the
  output is all of them, sorted.
\<close>

theorem filter_advisories_truncated:
  assumes "0 \<le> get_or (rk_max_results (ranking_section self)) 20"
  shows "int (length (filter_advisories lib self advs))
           \<le> get_or (rk_max_results (ranking_section self)) 20
         \<and> (get_or (rk_max_results (ranking_section self)) 20 = 0 \<longrightarrow>
              filter_advisories lib self advs = [])
         \<and> (int (length (collect lib self [] advs))
               \<le> get_or (rk_max_results (ranking_section self)) 20 \<longrightarrow>
              filter_advisories lib self advs
                = sort_descending relevance_score (collect lib self [] advs))"
proof -
  define n where "n = get_or (rk_max_results (ranking_section self)) 20"
  define xs where "xs = sort_descending relevance_score (collect lib self [] advs)"
  have out: "filter_advisories lib self advs = slice_to xs n"
    by (simp add: filter_advisories_def Let_def xs_def n_def)
  have len: "length xs = length (collect lib self [] advs)"
    by (simp add: xs_def sort_descending_def)
  from assms have "int (length (slice_to xs n)) \<le> n"
    unfolding n_def by (rule length_slice_to_nonneg)
  moreover have "slice_to xs n = []" if "n = 0"
    using that by (simp add: slice_to_zero)
  moreover have "slice_to xs n = xs" if "int (length (collect lib self [] advs)) \<le> n"
    using that len by (simp add: slice_to_all)
  ultimately show ?thesis
    unfolding out n_def [symmetric] xs_def [symmetric] by blast
qed

text \<open>Three advisories match in the scenario: a cap of 2 leaves at most two results, a
  cap of 0 none, a cap of 7 all three.\<close>

theorem filter_advisories_truncated_witness:
  "(0::int) \<le> get_or (rk_max_results (ranking_section (capped_filter 2))) 20
   \<and> int (length (filter_advisories literal_lib (capped_filter 2) [cve_0003, cve_0004, cve_0001])) \<le> 2
   \<and> get_or (rk_max_results (ranking_section (capped_filter 0))) 20 = 0
   \<and> filter_advisories literal_lib (capped_filter 0) [cve_0003, cve_0004, cve_0001] = []
   \<and> int (length (collect literal_lib (capped_filter 7) [] [cve_0003, cve_0004, cve_0001]))
        \<le> get_or (rk_max_results (ranking_section (capped_filter 7))) 20
   \<and> filter_advisories literal_lib (capped_filter 7) [cve_0003, cve_0004, cve_0001]
        = sort_descending relevance_score
            (collect literal_lib (capped_filter 7) [] [cve_0003, cve_0004, cve_0001])"
proof -
  have n2: "get_or (rk_max_results (ranking_section (capped_filter 2))) 20 = 2"
    by code_simp
  have n0: "get_or (rk_max_results (ranking_section (capped_filter 0))) 20 = 0"
    by code_simp
  have n7: "get_or (rk_max_results (ranking_section (capped_filter 7))) 20 = 7"
    by code_simp
  have all: "int (length (collect literal_lib (capped_filter 7) [] [cve_0003, cve_0004, cve_0001]))
        \<le> get_or (rk_max_results (ranking_section (capped_filter 7))) 20"
    by code_simp
  from n2 have p2: "0 \<le> get_or (rk_max_results (ranking_section (capped_filter 2))) 20" by simp
  from n0 have p0: "0 \<le> get_or (rk_max_results (ranking_section (capped_filter 0))) 20" by simp
  from n7 have p7: "0 \<le> get_or (rk_max_results (ranking_section (capped_filter 7))) 20" by simp
  from filter_advisories_truncated [OF p2, of literal_lib "[cve_0003, cve_0004, cve_0001]"] n2
  have r2: "int (length (filter_advisories literal_lib (capped_filter 2) [cve_0003, cve_0004, cve_0001])) \<le> 2"
    by simp
  from filter_advisories_truncated [OF p0, of literal_lib "[cve_0003, cve_0004, cve_0001]"] n0
  have r0: "filter_advisories literal_lib (capped_filter 0) [cve_0003, cve_0004, cve_0001] = []"
    by blast
  from filter_advisories_truncated [OF p7, of literal_lib "[cve_0003, cve_0004, cve_0001]"] all
  have r7: "filter_advisories literal_lib (capped_filter 7) [cve_0003, cve_0004, cve_0001]
        = sort_descending relevance_score
            (collect literal_lib (capped_filter 7) [] [cve_0003, cve_0004, cve_0001])"
    by blast
  from p2 r2 n0 r0 all r7 show ?thesis by blast
qed

text \<open>The claim as first stated fails for a negative cap: with \<open>max_results = -1\<close> the
  slice drops the last of the three results and returns two, more than
  \<open>max(0, -1) = 0\<close>.\<close>

theorem negative_max_results_counterexample:
  "get_or (rk_max_results (ranking_section (capped_filter (- 1)))) 20 = - 1
   \<and> length (filter_advisories literal_lib (capped_filter (- 1)) [cve_0003, cve_0004, cve_0001]) = 2
   \<and> \<not> int (length (filter_advisories literal_lib (capped_filter (- 1)) [cve_0003, cve_0004, cve_0001]))
         \<le> max 0 (get_or (rk_max_results (ranking_section (capped_filter (- 1)))) 20)"
  by code_simp

subsection \<open>Matched categories\<close>

text \<open>
  Claim C8, as amended. The \<open>matched_categories\<close> of a result are the display names of
  the configured categories with at least one matched keyword, in the configuration's
  iteration order, one entry for each such category however many of its keywords
  matched. They are pairwise distinct whenever the display names of the configured
  categories are pairwise distinct.
\<close>

theorem matched_categories_in_config_order:
  assumes "filter_advisory lib self a = Some r"
  shows "matched_categories (sr_matches r)
           = map category_name
               (filter (category_matched self (searchable_text a)) (category_items self))
         \<and> (distinct (map category_name (category_items self)) \<longrightarrow>
              distinct (matched_categories (sr_matches r)))"
proof -
  from assms have eq: "matched_categories (sr_matches r)
           = map category_name
               (filter (category_matched self (searchable_text a)) (category_items self))"
    by (rule filter_advisory_Some(4))
  have "distinct (map category_name
               (filter (category_matched self (searchable_text a)) (category_items self)))"
    if "distinct (map category_name (category_items self))"
    using that by (rule distinct_map_filter)
  with eq show ?thesis by simp
qed

text \<open>Of three categories with the distinct display names \<open>Web\<close>, \<open>Database\<close> and \<open>os\<close>,
  the example advisory matches two keywords of the first and one of the second: the
  matched categories are \<open>Web\<close> and \<open>Database\<close>, each once, in the order of the
  configuration and not in that of the text, where the SQL injection comes first.\<close>

theorem matched_categories_in_config_order_witness:
  "filter_advisory literal_lib stack_filter audit_advisory
     = Some \<lparr>sr_advisory = audit_advisory, sr_matches = stack_matches, relevance_score = 50\<rparr>
   \<and> map category_name (category_items stack_filter) = [''Web'', ''Database'', ''os'']
   \<and> distinct (map category_name (category_items stack_filter))
   \<and> matched_keywords stack_matches
       = [(''Web'', [''xss'', ''csrf'']), (''Database'', [''sql injection''])]
   \<and> matched_categories stack_matches = [''Web'', ''Database'']
   \<and> matched_categories stack_matches
       = map category_name
           (filter (category_matched stack_filter (searchable_text audit_advisory))
              (category_items stack_filter))
   \<and> distinct (matched_categories stack_matches)"
proof -
  have f: "filter_advisory literal_lib stack_filter audit_advisory
     = Some \<lparr>sr_advisory = audit_advisory, sr_matches = stack_matches, relevance_score = 50\<rparr>"
    by code_simp
  have n: "map category_name (category_items stack_filter) = [''Web'', ''Database'', ''os'']"
    by code_simp
  then have d: "distinct (map category_name (category_items stack_filter))"
    by simp
  have k: "matched_keywords stack_matches
       = [(''Web'', [''xss'', ''csrf'']), (''Database'', [''sql injection''])]"
    and c: "matched_categories stack_matches = [''Web'', ''Database'']"
    by (simp_all add: stack_matches_def)
  have sel: "sr_matches \<lparr>sr_advisory = audit_advisory, sr_matches = stack_matches,
                          relevance_score = 50\<rparr> = stack_matches"
    by simp
  from matched_categories_in_config_order [OF f, unfolded sel] d
  have "matched_categories stack_matches
       = map category_name
           (filter (category_matched stack_filter (searchable_text audit_advisory))
              (category_items stack_filter))
   \<and> distinct (matched_categories stack_matches)"
    by blast
  with f n d k c show ?thesis by blast
qed

text \<open>The claim as first stated fails when two categories share a display name: both
  match the example advisory, and the name is listed twice.\<close>

theorem shared_display_name_counterexample:
  "map_option (\<lambda>r. matched_categories (sr_matches r))
       (filter_advisory literal_lib twin_filter portal_advisory) = Some [''Web'', ''Web'']
   \<and> \<not> distinct [''Web'', ''Web'']"
  by code_simp

end
